theory Spec2Isabelle
  imports Complex_Main
begin

section \<open>Python values and exceptions\<close>

text \<open>
  The program is \<^verbatim>\<open>data_prepare.py\<close>. Python strings are modelled as \<^typ>\<open>string\<close>
  (characters with code points below 256), Python's unbounded integers as \<^typ>\<open>int\<close>, and
  Python's floats as \<^typ>\<open>real\<close>. The value of a float operation is idealised to the exact
  value: the rounding of IEEE doubles is outside the model, and so are the infinity and
  the zero that a product or a power out of range yields where Python raises nothing. The
  exceptions of float operations are branches of the model: the logarithm of a
  non-positive number, the division by zero, the conversion of an integer too large for a
  double, and a power beyond the range of doubles. Every exception the modelled code can
  raise is a value of \<open>error\<close>.
\<close>

datatype error =
    AttributeError | KeyError | ValueError | ZeroDivisionError | IndexError | OverflowError
  | FileNotFoundError | PermissionError

text \<open>\<^verbatim>\<open>str.lower()\<close> on the characters below 256.\<close>

definition lower :: "char \<Rightarrow> char" where
  "lower c =
     (let n = (of_char c :: nat)
      in if (65 \<le> n \<and> n \<le> 90) \<or> (192 \<le> n \<and> n \<le> 222 \<and> n \<noteq> 215)
         then char_of (n + 32) else c)"

definition is_digit :: "char \<Rightarrow> bool" where
  "is_digit c \<longleftrightarrow> c \<in> set ''0123456789''"

text \<open>\<^verbatim>\<open>int(s)\<close> on a string of ASCII digits; other strings raise \<^verbatim>\<open>ValueError\<close>.\<close>

definition py_int :: "string \<Rightarrow> error + int" where
  "py_int s =
     (if s \<noteq> [] \<and> list_all is_digit s
      then Inr (foldl (\<lambda>a c. 10 * a + (int (of_char c) - 48)) 0 s)
      else Inl ValueError)"

section \<open>Class \<^verbatim>\<open>Note\<close>\<close>

definition Note_values :: "string \<rightharpoonup> int" where
  "Note_values =
     [''c'' \<mapsto> 0, ''d'' \<mapsto> 2, ''e'' \<mapsto> 4, ''f'' \<mapsto> 5, ''g'' \<mapsto> 7, ''a'' \<mapsto> 9, ''b'' \<mapsto> 11]"

definition Note_names :: "string list" where
  "Note_names =
     [''C'', ''Cs'', ''D'', ''Ds'', ''E'', ''F'', ''Fs'', ''G'', ''Gs'', ''A'', ''As'', ''B'']"

subsection \<open>The regular expression of \<^verbatim>\<open>Note.note\<close>\<close>

text \<open>
  \<^verbatim>\<open>re.match('^([ABCDEFGabcdefg])([b#s]?)([0-9])$', str)\<close>. The three groups are returned
  as strings. In Python \<^verbatim>\<open>$\<close> matches at the end of the string and also just before a
  newline that ends the string; \<open>match_octave\<close> has both cases. The optional group is
  greedy: the accidental is tried first, the empty accidental second.
\<close>

definition is_letter :: "char \<Rightarrow> bool" where
  "is_letter c \<longleftrightarrow> c \<in> set ''ABCDEFGabcdefg''"

definition is_accidental :: "char \<Rightarrow> bool" where
  "is_accidental c \<longleftrightarrow> c \<in> set ''b#s''"

fun match_octave :: "string \<Rightarrow> string option" where
  "match_octave [d] = (if is_digit d then Some [d] else None)"
| "match_octave [d, e] = (if is_digit d \<and> e = CHR 0x0A then Some [d] else None)"
| "match_octave _ = None"

fun re_match :: "string \<Rightarrow> (string \<times> string \<times> string) option" where
  "re_match [] = None"
| "re_match (l # rest) =
     (if \<not> is_letter l then None
      else case (case rest of
                   [] \<Rightarrow> None
                 | a # rest' \<Rightarrow>
                     if is_accidental a
                     then map_option (\<lambda>d. ([l], [a], d)) (match_octave rest')
                     else None) of
             Some m \<Rightarrow> Some m
           | None \<Rightarrow> map_option (\<lambda>d. ([l], [], d)) (match_octave rest))"

subsection \<open>\<^verbatim>\<open>Note.note\<close>\<close>

text \<open>
  A failed match leaves \<^verbatim>\<open>matches = None\<close>, and \<^verbatim>\<open>matches.group(1)\<close> raises
  \<^verbatim>\<open>AttributeError\<close>.
\<close>

definition Note_note :: "string \<Rightarrow> error + int" where
  "Note_note str =
     (case re_match str of
        None \<Rightarrow> Inl AttributeError
      | Some (g1, g2, g3) \<Rightarrow>
          (let note = map lower g1;
               acc = map lower g2
           in case py_int g3 of
                Inl e \<Rightarrow> Inl e
              | Inr octave \<Rightarrow>
                  (let shift = (if acc = ''b'' then 0 - 1
                                else if acc = ''#'' then 0 + 1
                                else if acc = ''s'' then 0 + 1
                                else 0)
                   in case Note_values note of
                        None \<Rightarrow> Inl KeyError
                      | Some v \<Rightarrow> Inr (((octave + 1) * 12) + v + shift))))"


section \<open>Formatting\<close>

text \<open>\<^verbatim>\<open>str(n)\<close> for an integer: decimal digits, with a minus sign when negative.\<close>

definition digit_char :: "nat \<Rightarrow> char" where
  "digit_char n = ''0123456789'' ! n"

fun str_nat :: "nat \<Rightarrow> string" where
  "str_nat n = (if n < 10 then [digit_char n] else str_nat (n div 10) @ [digit_char (n mod 10)])"

definition str_int :: "int \<Rightarrow> string" where
  "str_int i = (if i < 0 then CHR ''-'' # str_nat (nat (- i)) else str_nat (nat i))"

text \<open>
  \<^verbatim>\<open>"%.3f" % x\<close>: the value rounded to three decimals (ties to even), printed with
  its sign, its integer part and exactly three fractional digits.
\<close>

definition round_half_even :: "real \<Rightarrow> int" where
  "round_half_even x =
     (let f = \<lfloor>x\<rfloor>
      in if x - of_int f < 1 / 2 then f
         else if x - of_int f > 1 / 2 then f + 1
         else if even f then f else f + 1)"

definition fmt_3f :: "real \<Rightarrow> string" where
  "fmt_3f x =
     (let q = nat (round_half_even (\<bar>x\<bar> * 1000));
          ip = q div 1000;
          fp = q mod 1000
      in (if x < 0 then ''-'' else []) @ str_nat ip @ ''.''
           @ [digit_char (fp div 100), digit_char (fp div 10 mod 10), digit_char (fp mod 10)])"

text \<open>\<^verbatim>\<open>math.log(x, base)\<close>: a \<^verbatim>\<open>ValueError\<close> outside the domain of the logarithm.\<close>

definition math_log :: "real \<Rightarrow> real \<Rightarrow> error + real" where
  "math_log x b =
     (if x \<le> 0 \<or> b \<le> 0 then Inl ValueError
      else if ln b = 0 then Inl ZeroDivisionError
      else Inr (ln x / ln b))"

text \<open>
  The conversion of an integer to a float, as the division \<^verbatim>\<open>n / 12.0\<close> does first: an
  integer that rounds to \<open>2 ^ 1024\<close> or beyond, in absolute value, raises
  \<^verbatim>\<open>OverflowError\<close> (int too large to convert to float). The largest double is
  \<open>2 ^ 1024 - 2 ^ 971\<close>, and rounding is to nearest, ties to even.
\<close>

definition float_limit :: int where
  "float_limit = 2 ^ 1024 - 2 ^ 970"

definition py_float :: "int \<Rightarrow> error + real" where
  "py_float n = (if float_limit \<le> \<bar>n\<bar> then Inl OverflowError else Inr (real_of_int n))"

text \<open>
  \<^verbatim>\<open>pow(2, x)\<close> for a float \<open>x\<close>: \<^verbatim>\<open>OverflowError\<close> (numerical result out of range)
  when the power is beyond the doubles, that is from \<open>x = 1024\<close> on. A power too small
  for a double is returned as zero without an exception.
\<close>

definition py_pow2 :: "real \<Rightarrow> error + real" where
  "py_pow2 x = (if 1024 \<le> x then Inl OverflowError else Inr (2 powr x))"

section \<open>The outside world\<close>

text \<open>
  The program acts on the outside world by writing the MIDI file, by running two
  external commands with \<^verbatim>\<open>os.system\<close> and by printing. Each such action is recorded, in
  order, in a trace. The environment decides the exit status of every command, which
  \<^verbatim>\<open>os.system\<close> returns to the caller, and whether a file can be opened and written: the
  program writes under the directory \<^verbatim>\<open>data\<close>, which it does not create, and \<^verbatim>\<open>open\<close>
  raises \<^verbatim>\<open>FileNotFoundError\<close> when the directory is missing. The events handed to the
  MIDI library are recorded as they are added.
\<close>

datatype midi_event =
    AddTempo int int int
  | AddProgramChange int int int int
  | AddNote int int int int int int

datatype action =
    WriteMidi string "midi_event list"
  | Fluidsynth string string string
  | Sox string int int string real real real
  | PrintWriting string int int real
  | PrintDot

record env =
  exit_status :: "action \<Rightarrow> int"
  write_file :: "string \<Rightarrow> error option"

definition os_system :: "env \<Rightarrow> action \<Rightarrow> action list \<Rightarrow> int \<times> action list" where
  "os_system ev a tr = (exit_status ev a, tr @ [a])"

section \<open>Class \<^verbatim>\<open>Sample\<close>\<close>

definition SOUNDFONT :: string where
  "SOUNDFONT = ''soundfont.sf2''"

text \<open>The dictionary that \<^verbatim>\<open>note_to_freq\<close> fills from \<^verbatim>\<open>enumerate(Note.names)\<close>.\<close>

definition note_map :: "string \<rightharpoonup> int" where
  "note_map = fold (\<lambda>(i, note_name) m. m(note_name \<mapsto> int i)) (enumerate 0 Note_names) Map.empty"

definition Sample_note_to_freq :: "string \<Rightarrow> int \<Rightarrow> real \<Rightarrow> error + real" where
  "Sample_note_to_freq nt oct a_440 =
     (case note_map nt of
        None \<Rightarrow> Inl KeyError
      | Some i \<Rightarrow>
          (let key = i + ((oct - 1) * 12) + 1
           in case py_float (key - 46) of
                Inl e \<Rightarrow> Inl e
              | Inr n \<Rightarrow>
                  (case py_pow2 (n / 12) of
                     Inl e \<Rightarrow> Inl e
                   | Inr p \<Rightarrow> Inr (a_440 * p))))"

record Sample =
  sample_name :: string
  mid_filename :: string
  tmp_filename :: string
  sample_key :: string
  sample_octave :: int
  sample_note :: string
  freq :: real
  midi_file :: "midi_event list"
  new_freq :: "real option"

text \<open>
  \<^verbatim>\<open>Sample.__init__\<close>. The frequency is computed before the MIDI pitch, so a key
  outside the table raises \<^verbatim>\<open>KeyError\<close> first. \<^verbatim>\<open>new_freq\<close> is not set before the first
  call of \<^verbatim>\<open>transform_wav\<close>.
\<close>

definition Sample_init :: "string \<Rightarrow> int \<Rightarrow> string \<Rightarrow> int \<Rightarrow> int \<Rightarrow> int \<Rightarrow> error + Sample" where
  "Sample_init nm program k oct volume tempo =
     (let nt = k @ str_int oct
      in case Sample_note_to_freq k oct 440 of
           Inl e \<Rightarrow> Inl e
         | Inr f \<Rightarrow>
             (case Note_note nt of
                Inl e \<Rightarrow> Inl e
              | Inr pitch \<Rightarrow>
                  Inr \<lparr>sample_name = nm,
                       mid_filename = nm @ ''.mid'',
                       tmp_filename = nm @ ''-'' @ ''full'' @ ''.wav'',
                       sample_key = k,
                       sample_octave = oct,
                       sample_note = nt,
                       freq = f,
                       midi_file = [AddTempo 0 0 tempo, AddProgramChange 0 0 0 program,
                                    AddNote 0 0 pitch 0 1 volume],
                       new_freq = None\<rparr>))"

text \<open>
  \<^verbatim>\<open>save\<close> opens the MIDI file for writing and writes it; when the environment refuses,
  the exception of \<^verbatim>\<open>open\<close> leaves \<^verbatim>\<open>save\<close> and its callers.
\<close>

definition Sample_save :: "env \<Rightarrow> Sample \<Rightarrow> action list \<Rightarrow> error + action list" where
  "Sample_save ev s tr =
     (case write_file ev (mid_filename s) of
        Some e \<Rightarrow> Inl e
      | None \<Rightarrow> Inr (tr @ [WriteMidi (mid_filename s) (midi_file s)]))"

text \<open>\<^verbatim>\<open>make_wav\<close> drops the status that \<^verbatim>\<open>os.system\<close> returns.\<close>

definition Sample_make_wav :: "env \<Rightarrow> Sample \<Rightarrow> action list \<Rightarrow> error + action list" where
  "Sample_make_wav ev s tr =
     (case Sample_save ev s tr of
        Inl e \<Rightarrow> Inl e
      | Inr tr1 \<Rightarrow>
          (let (status, tr2) = os_system ev (Fluidsynth SOUNDFONT (mid_filename s) (tmp_filename s)) tr1
           in Inr tr2))"

text \<open>
  Lines 118 to 121: the shift in cents. The shift \<^verbatim>\<open>pitch_shift_hz\<close> is a 64-bit integer,
  an element of a numpy array as \<^verbatim>\<open>main\<close> passes it or the default 0, so its conversion to
  a float cannot overflow. A base frequency of zero, which \<^verbatim>\<open>Sample.__init__\<close> does not
  produce in the model, is given the division error of Python's floats.
\<close>

definition shift_cents_of :: "real \<Rightarrow> int \<Rightarrow> error + real" where
  "shift_cents_of f pitch_shift_hz =
     (if pitch_shift_hz \<noteq> 0
      then (if f = 0 then Inl ZeroDivisionError
            else case math_log ((f + of_int pitch_shift_hz) / f) 2 of
                   Inl e \<Rightarrow> Inl e
                 | Inr l \<Rightarrow> Inr (1200 * l))
      else Inr 0)"

text \<open>Lines 125 to 127: the name of the output file.\<close>

definition wav_file_of :: "string \<Rightarrow> real \<Rightarrow> int \<Rightarrow> string \<Rightarrow> string" where
  "wav_file_of nm nf pitch_shift_hz suffix =
     nm @ ''-'' @ fmt_3f nf @ ''-'' @ ''S'' @ str_int pitch_shift_hz @ ''-'' @ suffix @ ''.wav''"

definition Sample_transform_wav ::
  "env \<Rightarrow> Sample \<Rightarrow> string \<Rightarrow> real \<Rightarrow> real \<Rightarrow> int \<Rightarrow> int \<Rightarrow> int \<Rightarrow> action list
     \<Rightarrow> error + (Sample \<times> action list)" where
  "Sample_transform_wav ev s suffix start_s duration pitch_shift_hz resample_hz resample_bits tr =
     (case shift_cents_of (freq s) pitch_shift_hz of
        Inl e \<Rightarrow> Inl e
      | Inr shift_cents \<Rightarrow>
          (let nf = freq s + of_int pitch_shift_hz;
               s1 = s\<lparr>new_freq := Some nf\<rparr>;
               wav_file = wav_file_of (sample_name s1) nf pitch_shift_hz suffix;
               tr1 = tr @ [PrintWriting wav_file resample_hz resample_bits shift_cents];
               (status, tr2) = os_system ev (Sox (tmp_filename s1) resample_hz resample_bits
                                               wav_file shift_cents start_s duration) tr1
           in Inr (s1, tr2)))"

definition Sample_clean :: "Sample \<Rightarrow> action list \<Rightarrow> action list" where
  "Sample_clean s tr = tr @ [PrintDot]"


section \<open>The generation pass: \<^verbatim>\<open>main\<close>\<close>

definition GM_PATCHES :: "int list" where
  "GM_PATCHES =
     [0, 3, 6, 11, 16, 19, 22, 24, 26, 30, 32, 33, 40, 42, 48, 51, 52, 56, 57, 61, 65, 66,
      71, 73, 78]"

text \<open>
  Randomness is an input of the model. The entropy behind \<^verbatim>\<open>np.random.randint\<close> is a
  sequence of natural numbers; a call with bounds \<open>low\<close> and \<open>high\<close> (\<open>high\<close>
  excluded, as in numpy) consumes as many of them as values are asked for. The permutation that
  \<^verbatim>\<open>random.shuffle\<close> applies to the catalogue is a function given to \<open>main\<close>.
\<close>

type_synonym rng = "nat \<Rightarrow> nat"

definition np_random_randint :: "int \<Rightarrow> int \<Rightarrow> nat \<Rightarrow> rng \<Rightarrow> int list \<times> rng" where
  "np_random_randint low high n g =
     (map (\<lambda>j. low + int (g j mod nat (high - low))) [0..<n], \<lambda>j. g (j + n))"

record state =
  patches :: "int list"
  entropy :: rng
  trace :: "action list"

text \<open>A \<^verbatim>\<open>for\<close> loop whose body may raise: the first exception ends the loop.\<close>

fun for_each :: "('a \<Rightarrow> 's \<Rightarrow> error + 's) \<Rightarrow> 'a list \<Rightarrow> 's \<Rightarrow> error + 's" where
  "for_each body [] st = Inr st"
| "for_each body (x # xs) st =
     (case body x st of Inl e \<Rightarrow> Inl e | Inr st1 \<Rightarrow> for_each body xs st1)"

text \<open>Lines 151 to 156: the three calls of \<^verbatim>\<open>transform_wav\<close> for one shift.\<close>

definition shift_body :: "env \<Rightarrow> int \<Rightarrow> Sample \<times> action list \<Rightarrow> error + (Sample \<times> action list)" where
  "shift_body ev pitch_shift_hz st =
     (case Sample_transform_wav ev (fst st) ''attack'' 0 (33 / 100) pitch_shift_hz 44100 16 (snd st) of
        Inl e \<Rightarrow> Inl e
      | Inr st1 \<Rightarrow>
          (case Sample_transform_wav ev (fst st1) ''sustain'' (33 / 100) (33 / 100) pitch_shift_hz
                  44100 16 (snd st1) of
             Inl e \<Rightarrow> Inl e
           | Inr st2 \<Rightarrow>
               Sample_transform_wav ev (fst st2) ''decay'' (66 / 100) (33 / 100) pitch_shift_hz
                 44100 16 (snd st2)))"

text \<open>Line 150: \<^verbatim>\<open>np.concatenate((np.array([0]), np.random.randint(10, 80, 5)))\<close>.\<close>

definition shift_offsets :: "rng \<Rightarrow> int list \<times> rng" where
  "shift_offsets g = (let (draws, g1) = np_random_randint 10 80 5 g in ([0] @ draws, g1))"

text \<open>Lines 147 to 158: the body of the loop over the keys, one job.\<close>

definition job_name :: "string \<Rightarrow> int \<Rightarrow> int \<Rightarrow> string" where
  "job_name k oct program = ''data/note-'' @ k @ str_int oct @ ''-P'' @ str_int program"

definition key_body :: "env \<Rightarrow> int \<Rightarrow> int \<Rightarrow> string \<Rightarrow> state \<Rightarrow> error + state" where
  "key_body ev oct program k st =
     (case Sample_init (job_name k oct program) program k oct 100 60 of
        Inl e \<Rightarrow> Inl e
      | Inr sample \<Rightarrow>
          (case Sample_make_wav ev sample (trace st) of
             Inl e \<Rightarrow> Inl e
           | Inr tr1 \<Rightarrow>
               (let (offsets, g1) = shift_offsets (entropy st)
                in case for_each (shift_body ev) offsets (sample, tr1) of
                     Inl e \<Rightarrow> Inl e
                   | Inr (sample2, tr2) \<Rightarrow>
                       Inr (st\<lparr>entropy := g1, trace := Sample_clean sample2 tr2\<rparr>))))"

definition patch_body :: "env \<Rightarrow> int \<Rightarrow> nat \<Rightarrow> state \<Rightarrow> error + state" where
  "patch_body ev oct patch st =
     (if patch < length (patches st)
      then (let program = patches st ! patch
            in for_each (key_body ev oct program) Note_names st)
      else Inl IndexError)"

definition octave_body :: "env \<Rightarrow> (int list \<Rightarrow> int list) \<Rightarrow> int \<Rightarrow> state \<Rightarrow> error + state" where
  "octave_body ev shuffle oct st =
     for_each (patch_body ev oct) [0..<15] (st\<lparr>patches := shuffle (patches st)\<rparr>)"

definition main :: "env \<Rightarrow> (int list \<Rightarrow> int list) \<Rightarrow> rng \<Rightarrow> error + state" where
  "main ev shuffle g =
     for_each (octave_body ev shuffle) [4..4]
       \<lparr>patches = GM_PATCHES, entropy = g, trace = []\<rparr>"

section \<open>Notions of the specification\<close>

text \<open>
  The specification's table of semitone offsets \<open>{C:0, D:2, E:4, F:5, G:7, A:9, B:11}\<close>,
  read without regard to case, and its shift of an accidental.
\<close>

definition semitone_offset :: "char \<Rightarrow> int" where
  "semitone_offset l =
     (if l \<in> {CHR ''C'', CHR ''c''} then 0
      else if l \<in> {CHR ''D'', CHR ''d''} then 2
      else if l \<in> {CHR ''E'', CHR ''e''} then 4
      else if l \<in> {CHR ''F'', CHR ''f''} then 5
      else if l \<in> {CHR ''G'', CHR ''g''} then 7
      else if l \<in> {CHR ''A'', CHR ''a''} then 9
      else 11)"

definition accidental_shift :: "string \<Rightarrow> int" where
  "accidental_shift a = (if a = ''b'' then - 1 else if a = ''#'' \<or> a = ''s'' then 1 else 0)"

text \<open>
  The specification's key index: the 1-based position of the pitch class in the table
  of twelve names, plus twelve times the octave less one.
\<close>

fun position :: "'a \<Rightarrow> 'a list \<Rightarrow> nat" where
  "position x [] = 0"
| "position x (y # ys) = (if x = y then 0 else Suc (position x ys))"

definition key_index :: "string \<Rightarrow> int \<Rightarrow> int" where
  "key_index nm oct = (int (position nm Note_names) + 1) + 12 * (oct - 1)"

text \<open>The frequency of a MIDI pitch, and closeness within a relative error of \<open>1e-6\<close>.\<close>

definition midi_freq :: "int \<Rightarrow> real" where
  "midi_freq p = 440 * 2 powr (real_of_int (p - 69) / 12)"

definition rel_close :: "real \<Rightarrow> real \<Rightarrow> bool" where
  "rel_close a b \<longleftrightarrow> \<bar>a - b\<bar> \<le> \<bar>b\<bar> / 1000000"

text \<open>The specification's cents of a shift \<open>d\<close> from the base frequency \<open>f\<close>.\<close>

definition cents :: "real \<Rightarrow> int \<Rightarrow> real" where
  "cents f d = (if d \<noteq> 0 then 1200 * log 2 ((f + of_int d) / f) else 0)"

text \<open>
  What a trace holds: the augmentation instructions are the runs of the transform tool,
  the renders are the runs of the synthesizer.
\<close>

fun is_augmentation :: "action \<Rightarrow> bool" where
  "is_augmentation (Sox inp hz bits out c start dur) = True"
| "is_augmentation a = False"

definition augmentations :: "action list \<Rightarrow> action list" where
  "augmentations tr = filter is_augmentation tr"

text \<open>The instruction that one call of \<^verbatim>\<open>transform_wav\<close> hands to the transform tool.\<close>

definition instruction :: "Sample \<Rightarrow> int \<Rightarrow> string \<Rightarrow> real \<Rightarrow> real \<Rightarrow> action" where
  "instruction s d suffix start dur =
     Sox (tmp_filename s) 44100 16 (wav_file_of (sample_name s) (freq s + of_int d) d suffix)
       (cents (freq s) d) start dur"

definition plan :: "Sample \<Rightarrow> int list \<Rightarrow> action list" where
  "plan s offsets =
     concat (map (\<lambda>d. [instruction s d ''attack'' 0 (33 / 100),
                        instruction s d ''sustain'' (33 / 100) (33 / 100),
                        instruction s d ''decay'' (66 / 100) (33 / 100)]) offsets)"


text \<open>The trim window of an instruction: its start and its duration, in seconds.\<close>

fun trim :: "action \<Rightarrow> real \<times> real" where
  "trim (Sox inp hz bits out c start dur) = (start, dur)"
| "trim a = (0, 0)"

section \<open>Concrete inputs\<close>

text \<open>
  Three environments: one in which every external command exits with status 0 and every
  file can be written, one in which the synthesizer exits with status 1, and one in which
  no file can be written because the directory is missing. A source of entropy, the state
  in which \<^verbatim>\<open>main\<close> starts, and the sample that \<^verbatim>\<open>main\<close> builds for the key A in octave 4
  with program 0.
\<close>

definition all_succeed :: env where
  "all_succeed = \<lparr>exit_status = (\<lambda>a. 0), write_file = (\<lambda>p. None)\<rparr>"



definition data_missing :: env where
  "data_missing = \<lparr>exit_status = (\<lambda>a. 0), write_file = (\<lambda>p. Some FileNotFoundError)\<rparr>"

definition zero_entropy :: rng where
  "zero_entropy j = 0"

definition initial_state :: state where
  "initial_state = \<lparr>patches = GM_PATCHES, entropy = zero_entropy, trace = []\<rparr>"

definition sample_A4 :: Sample where
  "sample_A4 =
     \<lparr>sample_name = ''data/note-A4-P0'',
      mid_filename = ''data/note-A4-P0.mid'',
      tmp_filename = ''data/note-A4-P0-full.wav'',
      sample_key = ''A'',
      sample_octave = 4,
      sample_note = ''A4'',
      freq = 440,
      midi_file = [AddTempo 0 0 60, AddProgramChange 0 0 0 0, AddNote 0 0 69 0 1 100],
      new_freq = None\<rparr>"

text \<open>The number of augmentation instructions that a run attempted, when it returned.\<close>

definition attempted :: "error + state \<Rightarrow> error + nat" where
  "attempted r = map_sum id (\<lambda>st. length (augmentations (trace st))) r"

section \<open>Evaluation lemmas\<close>

declare str_nat.simps [simp del]

lemma lower_letters:
  "lower CHR ''A'' = CHR ''a''" "lower CHR ''B'' = CHR ''b''" "lower CHR ''C'' = CHR ''c''"
  "lower CHR ''D'' = CHR ''d''" "lower CHR ''E'' = CHR ''e''" "lower CHR ''F'' = CHR ''f''"
  "lower CHR ''G'' = CHR ''g''"
  "lower CHR ''a'' = CHR ''a''" "lower CHR ''b'' = CHR ''b''" "lower CHR ''c'' = CHR ''c''"
  "lower CHR ''d'' = CHR ''d''" "lower CHR ''e'' = CHR ''e''" "lower CHR ''f'' = CHR ''f''"
  "lower CHR ''g'' = CHR ''g''" "lower CHR ''s'' = CHR ''s''" "lower CHR 0x23 = CHR 0x23"
  by code_simp+

lemma values_lower_all:
  "\<forall>l \<in> set ''ABCDEFGabcdefg''. Note_values (map lower [l]) = Some (semitone_offset l)"
  by code_simp

lemma values_lower:
  "is_letter l \<Longrightarrow> Note_values (map lower [l]) = Some (semitone_offset l)"
  using values_lower_all unfolding is_letter_def by blast

lemma digit_cases_all:
  "\<forall>k \<in> set [0..<10]. is_digit (''0123456789'' ! k) \<and> py_int [''0123456789'' ! k] = Inr (int k)"
  by code_simp

lemma digit_cases:
  assumes "k < (10::nat)"
  shows "is_digit (''0123456789'' ! k) \<and> py_int [''0123456789'' ! k] = Inr (int k)"
  using digit_cases_all assms by simp

lemma digit_not_accidental: "is_digit d \<Longrightarrow> \<not> is_accidental d"
  by (auto simp: is_digit_def is_accidental_def)

lemma re_match_plain:
  "is_letter l \<Longrightarrow> is_digit d \<Longrightarrow> re_match [l, d] = Some ([l], [], [d])"
  by (simp add: digit_not_accidental)

lemma re_match_accidental:
  "is_letter l \<Longrightarrow> is_accidental a \<Longrightarrow> is_digit d \<Longrightarrow> re_match [l, a, d] = Some ([l], [a], [d])"
  by simp

lemma Note_note_plain:
  assumes "is_letter l" "k < 10"
  shows "Note_note [l, ''0123456789'' ! k] = Inr ((int k + 1) * 12 + semitone_offset l)"
  using assms digit_cases[OF assms(2)] values_lower[OF assms(1)]
  by (simp add: Note_note_def re_match_plain del: re_match.simps)

lemma Note_note_accidental:
  assumes "is_letter l" "is_accidental a" "k < 10"
  shows "Note_note [l, a, ''0123456789'' ! k]
           = Inr ((int k + 1) * 12 + semitone_offset l + accidental_shift [a])"
  using assms digit_cases[OF assms(3)] values_lower[OF assms(1)]
  by (auto simp add: Note_note_def re_match_accidental is_accidental_def accidental_shift_def
        lower_letters simp del: re_match.simps)

section \<open>The pitch of a note name\<close>

text \<open>
  Claim C3. For every valid note string, that is a letter A to G in either case, an
  optional accidental \<open>b\<close>, \<open>#\<close> or \<open>s\<close>, and one octave digit, \<^verbatim>\<open>Note.note\<close> returns
  \<open>(octave + 1) * 12\<close> plus the semitone offset of the letter plus the shift of the
  accidental; in particular \<open>C4\<close> gives 60, \<open>A4\<close> gives 69, \<open>Cs4\<close> gives 61 and \<open>Bb3\<close>
  gives 58.
\<close>

theorem Note_note_formula:
  "(\<forall>l a k. l \<in> set ''ABCDEFGabcdefg'' \<and> a \<in> {[], ''b'', ''#'', ''s''} \<and> k < 10 \<longrightarrow>
      Note_note (l # a @ [''0123456789'' ! k])
        = Inr ((int k + 1) * 12 + semitone_offset l + accidental_shift a))
   \<and> Note_note ''C4'' = Inr 60 \<and> Note_note ''A4'' = Inr 69
   \<and> Note_note ''Cs4'' = Inr 61 \<and> Note_note ''Bb3'' = Inr 58"
proof -
  have gen: "Note_note (l # a @ [''0123456789'' ! k])
        = Inr ((int k + 1) * 12 + semitone_offset l + accidental_shift a)"
    if h1: "l \<in> set ''ABCDEFGabcdefg''" and h2: "a \<in> {[], ''b'', ''#'', ''s''}" and h3: "k < 10"
    for l a k
  proof -
    have l: "is_letter l" using h1 by (simp add: is_letter_def)
    show ?thesis
    proof (cases "a = []")
      case True
      then show ?thesis using Note_note_plain[OF l h3] by (simp add: accidental_shift_def)
    next
      case False
      then obtain c where a: "a = [c]" and c: "is_accidental c"
        using h2 by (auto simp: is_accidental_def)
      show ?thesis using Note_note_accidental[OF l c h3] by (simp add: a)
    qed
  qed
  have "Note_note ''C4'' = Inr 60" "Note_note ''A4'' = Inr 69"
       "Note_note ''Cs4'' = Inr 61" "Note_note ''Bb3'' = Inr 58"
    by code_simp+
  with gen show ?thesis by blast
qed

theorem Note_note_formula_witness:
  "CHR ''B'' \<in> set ''ABCDEFGabcdefg'' \<and> ''b'' \<in> {[], ''b'', ''#'', ''s''} \<and> (3::nat) < 10
   \<and> Note_note (CHR ''B'' # ''b'' @ [''0123456789'' ! 3])
       = Inr ((int 3 + 1) * 12 + semitone_offset CHR ''B'' + accidental_shift ''b'')
   \<and> (int 3 + 1) * 12 + semitone_offset CHR ''B'' + accidental_shift ''b'' = 58"
  using Note_note_formula by (simp add: semitone_offset_def accidental_shift_def)

text \<open>
  Claim C5. A string that does not have the shape letter, optional accidental, digit
  is to be rejected. The string \<open>C4\<close> followed by a newline does not have that shape,
  yet the pattern's \<^verbatim>\<open>$\<close> matches before the final newline and \<^verbatim>\<open>Note.note\<close> returns the
  pitch 60 for it.
\<close>

theorem Note_note_trailing_newline:
  "Note_note (''C4'' @ [CHR 0x0A]) = Inr 60"
  by code_simp

section \<open>The frequency of a pitch class\<close>

lemma note_map_all:
  "\<forall>k \<in> set Note_names. note_map k = Some (int (position k Note_names))"
  by (code_simp)

lemma note_map_None: "k \<notin> set Note_names \<Longrightarrow> note_map k = None"
  by (simp add: note_map_def Note_names_def enumerate_eq_zip)

lemma note_map_dom: "note_map k = None \<longleftrightarrow> k \<notin> set Note_names"
  using note_map_all note_map_None by (fastforce)

lemma names_note_all:
  "\<forall>k \<in> set Note_names. \<forall>d \<in> set [0..<10].
     Note_note (k @ str_int (int d)) = Inr (12 * (int d + 1) + int (position k Note_names))"
  by (code_simp)

lemma float_limit_big: "100000 < float_limit"
  by (simp add: float_limit_def)

lemma note_to_freq_in_range:
  assumes m: "note_map nm = Some i"
      and lo: "- float_limit < i + (oct - 1) * 12 + 1 - 46"
      and hi: "i + (oct - 1) * 12 + 1 - 46 < 12288"
  shows "Sample_note_to_freq nm oct a
           = Inr (a * 2 powr (real_of_int (i + (oct - 1) * 12 + 1 - 46) / 12))"
proof -
  let ?n = "i + (oct - 1) * 12 + 1 - 46"
  have "\<bar>?n\<bar> < float_limit" using lo hi float_limit_big by (arith)
  then have f: "py_float ?n = Inr (real_of_int ?n)" by (simp add: py_float_def)
  have "real_of_int ?n < 12288" using hi by (arith)
  then have p: "py_pow2 (real_of_int ?n / 12) = Inr (2 powr (real_of_int ?n / 12))"
    by (simp add: py_pow2_def)
  show ?thesis
    unfolding Sample_note_to_freq_def m by (simp only: option.case Let_def f p sum.case)
qed

lemma note_to_freq_out_of_range:
  assumes m: "note_map nm = Some i"
      and out: "i + (oct - 1) * 12 + 1 - 46 \<le> - float_limit \<or> 12288 \<le> i + (oct - 1) * 12 + 1 - 46"
  shows "Sample_note_to_freq nm oct a = Inl OverflowError"
proof -
  let ?n = "i + (oct - 1) * 12 + 1 - 46"
  show ?thesis
  proof (cases "float_limit \<le> \<bar>?n\<bar>")
    case True
    then have f: "py_float ?n = Inl OverflowError" by (simp add: py_float_def)
    show ?thesis
      unfolding Sample_note_to_freq_def m by (simp only: option.case Let_def f sum.case)
  next
    case False
    then have f: "py_float ?n = Inr (real_of_int ?n)" by (simp add: py_float_def)
    from False out have "12288 \<le> ?n" by (arith)
    then have "(12288::real) \<le> real_of_int ?n" by (arith)
    then have p: "py_pow2 (real_of_int ?n / 12) = Inl OverflowError"
      by (simp add: py_pow2_def)
    show ?thesis
      unfolding Sample_note_to_freq_def m by (simp only: option.case Let_def f p sum.case)
  qed
qed

lemma position_bound: "nm \<in> set Note_names \<Longrightarrow> position nm Note_names < 12"
proof -
  have "\<forall>k \<in> set Note_names. position k Note_names < 12" by (code_simp)
  then show "nm \<in> set Note_names \<Longrightarrow> position nm Note_names < 12" by (blast)
qed

lemma key_index_eq:
  "int (position nm Note_names) + (oct - 1) * 12 + 1 - 46 = key_index nm oct - 46"
  by (simp add: key_index_def)

lemma A_in_names: "''A'' \<in> set Note_names"
  by (simp add: Note_names_def)

lemma note_map_A: "note_map ''A'' = Some 9"
  by (code_simp)

lemma note_to_freq_A:
  assumes "- 1000 \<le> oct" "oct \<le> 1000"
  shows "Sample_note_to_freq ''A'' oct a = Inr (a * 2 powr (real_of_int (12 * (oct - 4)) / 12))"
proof -
  have e: "9 + (oct - 1) * 12 + 1 - 46 = 12 * (oct - 4)" by (simp)
  have lo: "- float_limit < 9 + (oct - 1) * 12 + 1 - 46"
    using assms float_limit_big by (arith)
  have hi: "9 + (oct - 1) * 12 + 1 - 46 < 12288" using assms by (arith)
  show ?thesis
    using note_to_freq_in_range[OF note_map_A lo hi, of a] unfolding e .
qed

text \<open>
  Claim C4, as stated, fails for a high octave: for the name \<open>A\<close> and the octave 1028 the
  key index is 12334, the exponent \<open>(12334 - 46) / 12\<close> is 1024, and \<^verbatim>\<open>pow\<close> raises
  \<^verbatim>\<open>OverflowError\<close> instead of returning a frequency.
\<close>

theorem note_to_freq_overflow_counterexample:
  "''A'' \<in> set Note_names \<and> key_index ''A'' 1028 = 12334
   \<and> Sample_note_to_freq ''A'' 1028 440 = Inl OverflowError"
proof -
  have k: "key_index ''A'' 1028 = 12334" by (code_simp)
  have "Sample_note_to_freq ''A'' 1028 440 = Inl OverflowError"
    by (rule note_to_freq_out_of_range[OF note_map_A]) simp
  with A_in_names k show ?thesis by (simp)
qed

text \<open>
  Claim C4, amended. For every name of the table of twelve sharp-spelled pitch classes and
  every octave from \<open>-1017\<close> to 1018, \<^verbatim>\<open>Sample.note_to_freq\<close> returns
  \<open>440 * 2 ^ ((key_index - 46) / 12)\<close>, where the key index is the 1-based position of the
  name in the table plus \<open>12 * (octave - 1)\<close>; in particular A4 gives 440, A5 gives 880 and
  A3 gives 220, met exactly in the arithmetic of the model and hence within \<open>1e-6\<close>. For
  these octaves the exponent lies between \<open>-1022\<close> and 1015, where the power and the
  product are doubles in the normal range. From the exponent 1024 on, \<^verbatim>\<open>pow\<close> raises
  \<^verbatim>\<open>OverflowError\<close>.
\<close>

theorem note_to_freq_formula:
  "(\<forall>nm oct. nm \<in> set Note_names \<and> - 1017 \<le> oct \<and> oct \<le> 1018 \<longrightarrow>
      Sample_note_to_freq nm oct 440 = Inr (440 * 2 powr (real_of_int (key_index nm oct - 46) / 12))
      \<and> - 1022 \<le> real_of_int (key_index nm oct - 46) / 12
      \<and> real_of_int (key_index nm oct - 46) / 12 \<le> 1015)
   \<and> (\<forall>nm oct. nm \<in> set Note_names \<and> 1024 \<le> real_of_int (key_index nm oct - 46) / 12 \<longrightarrow>
      Sample_note_to_freq nm oct 440 = Inl OverflowError)
   \<and> Sample_note_to_freq ''A'' 4 440 = Inr 440
   \<and> Sample_note_to_freq ''A'' 5 440 = Inr 880
   \<and> Sample_note_to_freq ''A'' 3 440 = Inr 220"
proof -
  have gen: "Sample_note_to_freq nm oct 440 = Inr (440 * 2 powr (real_of_int (key_index nm oct - 46) / 12))
      \<and> - 1022 \<le> real_of_int (key_index nm oct - 46) / 12
      \<and> real_of_int (key_index nm oct - 46) / 12 \<le> 1015"
    if h: "nm \<in> set Note_names \<and> - 1017 \<le> oct \<and> oct \<le> 1018" for nm and oct :: int
  proof -
    let ?i = "int (position nm Note_names)"
    from h have nm: "nm \<in> set Note_names" and o: "- 1017 \<le> oct" "oct \<le> 1018" by (simp_all)
    have m: "note_map nm = Some ?i" using note_map_all nm by (blast)
    have b: "0 \<le> ?i" "?i < 12" using position_bound[OF nm] by (simp_all)
    have lo: "- 12264 \<le> ?i + (oct - 1) * 12 + 1 - 46" using b o by (arith)
    have hi: "?i + (oct - 1) * 12 + 1 - 46 \<le> 12180" using b o by (arith)
    have lo': "- float_limit < ?i + (oct - 1) * 12 + 1 - 46"
      using lo float_limit_big by (arith)
    have hi': "?i + (oct - 1) * 12 + 1 - 46 < 12288" using hi by (arith)
    have v: "Sample_note_to_freq nm oct 440
               = Inr (440 * 2 powr (real_of_int (key_index nm oct - 46) / 12))"
      using note_to_freq_in_range[OF m lo' hi', of 440] unfolding key_index_eq .
    have r1: "- 1022 \<le> real_of_int (key_index nm oct - 46) / 12"
      using lo unfolding key_index_eq by (simp)
    have r2: "real_of_int (key_index nm oct - 46) / 12 \<le> 1015"
      using hi unfolding key_index_eq by (simp)
    from v r1 r2 show ?thesis by (simp)
  qed
  have ovf: "Sample_note_to_freq nm oct 440 = Inl OverflowError"
    if h: "nm \<in> set Note_names \<and> 1024 \<le> real_of_int (key_index nm oct - 46) / 12" for nm and oct :: int
  proof -
    let ?i = "int (position nm Note_names)"
    from h have nm: "nm \<in> set Note_names" by (simp)
    have m: "note_map nm = Some ?i" using note_map_all nm by (blast)
    from h have "(12288::real) \<le> real_of_int (key_index nm oct - 46)" by (simp)
    then have "12288 \<le> key_index nm oct - 46" by (arith)
    then have "12288 \<le> ?i + (oct - 1) * 12 + 1 - 46" unfolding key_index_eq .
    then show ?thesis using note_to_freq_out_of_range[OF m, of oct 440] by (simp)
  qed
  have "Sample_note_to_freq ''A'' 4 440 = Inr 440"
       "Sample_note_to_freq ''A'' 5 440 = Inr 880"
       "Sample_note_to_freq ''A'' 3 440 = Inr 220"
    using note_to_freq_A[of 4 440] note_to_freq_A[of 5 440] note_to_freq_A[of 3 440]
    by (simp_all)
  with gen ovf show ?thesis by (blast)
qed

theorem note_to_freq_formula_witness:
  "''A'' \<in> set Note_names \<and> (- 1017::int) \<le> 4 \<and> (4::int) \<le> 1018
   \<and> Sample_note_to_freq ''A'' 4 440 = Inr (440 * 2 powr (real_of_int (key_index ''A'' 4 - 46) / 12))
   \<and> key_index ''A'' 4 = 46
   \<and> 1024 \<le> real_of_int (key_index ''A'' 1028 - 46) / 12
   \<and> Sample_note_to_freq ''A'' 1028 440 = Inl OverflowError"
proof -
  have h: "''A'' \<in> set Note_names \<and> (- 1017::int) \<le> 4 \<and> (4::int) \<le> 1018"
    using A_in_names by (simp)
  have k: "key_index ''A'' 4 = 46" by (code_simp)
  have k2: "key_index ''A'' 1028 = 12334" by (code_simp)
  have h2: "''A'' \<in> set Note_names \<and> 1024 \<le> real_of_int (key_index ''A'' 1028 - 46) / 12"
    using A_in_names unfolding k2 by (simp)
  note a = note_to_freq_formula[THEN conjunct1, rule_format, OF h, THEN conjunct1]
  note b = note_to_freq_formula[THEN conjunct2, THEN conjunct1, rule_format, OF h2]
  show ?thesis
    by (intro conjI a b k A_in_names conjunct2[OF h2]) simp_all
qed

text \<open>
  Claim C10, as stated, fails inside the table: \<open>A\<close> is one of the twelve names, yet the
  call for the octave 1028 does not return normally, it raises \<^verbatim>\<open>OverflowError\<close>.
\<close>

theorem note_to_freq_domain_counterexample:
  "''A'' \<in> set Note_names \<and> length Note_names = 12
   \<and> Sample_note_to_freq ''A'' 1028 440 = Inl OverflowError"
proof -
  have a: "Sample_note_to_freq ''A'' 1028 440 = Inl OverflowError"
    by (rule note_to_freq_out_of_range[OF note_map_A]) simp
  have l: "length Note_names = 12" by (simp add: Note_names_def)
  from A_in_names a l show ?thesis by (simp)
qed

text \<open>
  Claim C10, amended. \<^verbatim>\<open>Sample.note_to_freq\<close> looks the name up first: on any spelling
  outside the twelve names of the table the lookup raises \<^verbatim>\<open>KeyError\<close>, whatever the
  octave; the flat spelling \<open>Bb\<close> and the lowercase \<open>c\<close> are rejected, although
  \<^verbatim>\<open>Note.note\<close> accepts \<open>Bb3\<close> and \<open>c4\<close>. On a name of the table the call returns normally
  exactly when the key index less 46 is below \<open>12 * 1024\<close> and, in absolute value, below
  the limit of the conversion to a float, which holds for every octave from \<open>-1017\<close> to
  1027; otherwise it raises \<^verbatim>\<open>OverflowError\<close>.
\<close>

theorem note_to_freq_domain:
  "(\<forall>nm oct a. nm \<notin> set Note_names \<longrightarrow> Sample_note_to_freq nm oct a = Inl KeyError)
   \<and> (\<forall>nm oct a. nm \<in> set Note_names
         \<and> - float_limit < key_index nm oct - 46 \<and> key_index nm oct - 46 < 12 * 1024 \<longrightarrow>
         (\<exists>f. Sample_note_to_freq nm oct a = Inr f))
   \<and> (\<forall>nm oct a. nm \<in> set Note_names
         \<and> \<not> (- float_limit < key_index nm oct - 46 \<and> key_index nm oct - 46 < 12 * 1024) \<longrightarrow>
         Sample_note_to_freq nm oct a = Inl OverflowError)
   \<and> (\<forall>nm oct a. nm \<in> set Note_names \<and> - 1017 \<le> oct \<and> oct \<le> 1027 \<longrightarrow>
         (\<exists>f. Sample_note_to_freq nm oct a = Inr f))
   \<and> length Note_names = 12 \<and> distinct Note_names
   \<and> Note_note ''Bb3'' = Inr 58 \<and> Sample_note_to_freq ''Bb'' 3 440 = Inl KeyError
   \<and> Note_note ''c4'' = Inr 60 \<and> Sample_note_to_freq ''c'' 4 440 = Inl KeyError"
proof -
  have outside: "Sample_note_to_freq nm oct a = Inl KeyError" if "nm \<notin> set Note_names" for nm oct a
    using note_map_None[OF that] by (simp add: Sample_note_to_freq_def)
  have inside: "\<exists>f. Sample_note_to_freq nm oct a = Inr f"
    if h: "nm \<in> set Note_names
         \<and> - float_limit < key_index nm oct - 46 \<and> key_index nm oct - 46 < 12 * 1024" for nm oct a
  proof -
    let ?i = "int (position nm Note_names)"
    have m: "note_map nm = Some ?i" using note_map_all h by (blast)
    have lo: "- float_limit < ?i + (oct - 1) * 12 + 1 - 46" using h unfolding key_index_eq by (simp)
    have hi: "?i + (oct - 1) * 12 + 1 - 46 < 12288" using h unfolding key_index_eq by (simp)
    show ?thesis using note_to_freq_in_range[OF m lo hi, of a] by (simp)
  qed
  have overflow: "Sample_note_to_freq nm oct a = Inl OverflowError"
    if h: "nm \<in> set Note_names
         \<and> \<not> (- float_limit < key_index nm oct - 46 \<and> key_index nm oct - 46 < 12 * 1024)" for nm oct a
  proof -
    let ?i = "int (position nm Note_names)"
    have m: "note_map nm = Some ?i" using note_map_all h by (blast)
    have "?i + (oct - 1) * 12 + 1 - 46 \<le> - float_limit \<or> 12288 \<le> ?i + (oct - 1) * 12 + 1 - 46"
      using h unfolding key_index_eq by (auto)
    then show ?thesis by (rule note_to_freq_out_of_range[OF m])
  qed
  have octs: "\<exists>f. Sample_note_to_freq nm oct a = Inr f"
    if h: "nm \<in> set Note_names \<and> - 1017 \<le> oct \<and> oct \<le> 1027" for nm and oct :: int and a
  proof -
    from h have nm: "nm \<in> set Note_names" and o: "- 1017 \<le> oct" "oct \<le> 1027" by (simp_all)
    have b: "position nm Note_names < 12" by (rule position_bound[OF nm])
    have "- float_limit < key_index nm oct - 46"
      using o float_limit_big unfolding key_index_def by (arith)
    moreover have "key_index nm oct - 46 < 12 * 1024"
      using o b unfolding key_index_def by (arith)
    ultimately show ?thesis using inside[of nm oct a] nm by (blast)
  qed
  have tbl: "length Note_names = 12" "distinct Note_names"
    by (simp_all add: Note_names_def)
  have ex: "Note_note ''Bb3'' = Inr 58" "Note_note ''c4'' = Inr 60"
    by (code_simp+)
  have "''Bb'' \<notin> set Note_names" "''c'' \<notin> set Note_names"
    by (simp_all add: Note_names_def)
  then have ex2: "Sample_note_to_freq ''Bb'' 3 440 = Inl KeyError"
                 "Sample_note_to_freq ''c'' 4 440 = Inl KeyError"
    using outside by (blast)+
  show ?thesis
    apply (intro conjI allI impI)
    using outside inside overflow octs tbl ex ex2 by (blast)+
qed

theorem note_to_freq_domain_witness:
  "''Ab'' \<notin> set Note_names \<and> Sample_note_to_freq ''Ab'' 2 440 = Inl KeyError
   \<and> ''Gs'' \<in> set Note_names \<and> (- 1017::int) \<le> 2 \<and> (2::int) \<le> 1027
   \<and> (\<exists>f. Sample_note_to_freq ''Gs'' 2 440 = Inr f)
   \<and> - float_limit < key_index ''Gs'' 2 - 46 \<and> key_index ''Gs'' 2 - 46 < 12 * 1024
   \<and> \<not> (- float_limit < key_index ''Gs'' 1029 - 46 \<and> key_index ''Gs'' 1029 - 46 < 12 * 1024)
   \<and> Sample_note_to_freq ''Gs'' 1029 440 = Inl OverflowError"
proof -
  have h1: "''Gs'' \<in> set Note_names" and h2: "''Ab'' \<notin> set Note_names"
    by (simp_all add: Note_names_def)
  have k: "key_index ''Gs'' 2 = 21" "key_index ''Gs'' 1029 = 12345" by (code_simp+)
  have r: "- float_limit < key_index ''Gs'' 2 - 46 \<and> key_index ''Gs'' 2 - 46 < 12 * 1024"
    unfolding k using float_limit_big by (simp)
  have nr: "\<not> (- float_limit < key_index ''Gs'' 1029 - 46 \<and> key_index ''Gs'' 1029 - 46 < 12 * 1024)"
    unfolding k by (simp)
  have o: "''Gs'' \<in> set Note_names \<and> (- 1017::int) \<le> 2 \<and> (2::int) \<le> 1027"
    using h1 by (simp)
  note a = note_to_freq_domain[THEN conjunct1, rule_format, OF h2, of 2 440]
  note b = note_to_freq_domain[THEN conjunct2, THEN conjunct2, THEN conjunct2, THEN conjunct1,
             rule_format, OF o, of 440]
  note c = note_to_freq_domain[THEN conjunct2, THEN conjunct2, THEN conjunct1, rule_format,
             OF conjI[OF h1 nr], of 440]
  show ?thesis
    by (intro conjI a b c h1 h2 conjunct1[OF r] conjunct2[OF r] nr) simp_all
qed

section \<open>The cross-check of pitch and frequency\<close>

lemma semitone_ratio: "(21 / 20 :: real) < 2 powr (1 / 12)"
proof -
  have p: "(21 / 20 :: real) ^ 12 < 2" by (simp add: power_divide)
  have e: "(21 / 20 :: real) powr 12 = (21 / 20) ^ 12"
    using powr_realpow[of "21 / 20 :: real" 12] by (simp)
  have "((21 / 20 :: real) powr 12) powr (1 / 12) < 2 powr (1 / 12)"
    unfolding e using p by (intro powr_less_mono2; simp)
  moreover have "((21 / 20 :: real) powr 12) powr (1 / 12) = (21 / 20) powr (12 * (1 / 12))"
    by (rule powr_powr)
  moreover have "(21 / 20 :: real) powr (12 * (1 / 12)) = 21 / 20"
    by (simp)
  ultimately show ?thesis by (simp only:)
qed

lemma midi_freq_Suc: "midi_freq (p + 1) = midi_freq p * 2 powr (1 / 12)"
proof -
  have "real_of_int (p + 1 - 69) / 12 = real_of_int (p - 69) / 12 + 1 / 12"
    by (simp add: field_simps)
  then have "(2::real) powr (real_of_int (p + 1 - 69) / 12)
               = 2 powr (real_of_int (p - 69) / 12) * 2 powr (1 / 12)"
    by (simp only: powr_add)
  then show ?thesis unfolding midi_freq_def by (simp only: mult.assoc)
qed

lemma midi_freq_pos: "0 < midi_freq p"
  by (simp add: midi_freq_def)

lemma semitone_not_close: "\<not> rel_close (midi_freq p) (midi_freq (p + 1))"
proof -
  let ?a = "midi_freq p"
  have pos: "0 < ?a" by (rule midi_freq_pos)
  have b: "midi_freq (p + 1) = ?a * 2 powr (1 / 12)" by (rule midi_freq_Suc)
  have r: "21 / 20 < (2::real) powr (1 / 12)" by (rule semitone_ratio)
  define r where "r = (2::real) powr (1 / 12)"
  have r1: "21 / 20 < r" using semitone_ratio by (simp add: r_def)
  have "\<bar>?a - ?a * r\<bar> = ?a * (r - 1)"
    using pos r1 by (simp add: abs_if algebra_simps)
  moreover have "\<bar>?a * r\<bar> / 1000000 = ?a * (r / 1000000)"
    using pos r1 by (simp add: abs_mult)
  moreover have "r / 1000000 < r - 1" using r1 by (simp add: field_simps)
  then have "?a * (r / 1000000) < ?a * (r - 1)" using pos by (simp)
  ultimately show ?thesis unfolding rel_close_def b r_def[symmetric] by (simp)
qed

text \<open>
  Claim C2, as stated, fails at the valid note string \<open>Bb3\<close>, whose pitch is 58. Its
  pitch-class name \<open>Bb\<close> is not in the table, so \<^verbatim>\<open>Sample.note_to_freq\<close> raises
  \<^verbatim>\<open>KeyError\<close>; and the letter \<open>B\<close> alone with octave 3 gives the frequency of pitch 59,
  a semitone above, which is not within a relative error of \<open>1e-6\<close>.
\<close>

theorem cross_check_flat_counterexample:
  "Note_note ''Bb3'' = Inr 58
   \<and> Sample_note_to_freq ''Bb'' 3 440 = Inl KeyError
   \<and> Sample_note_to_freq ''B'' 3 440 = Inr (midi_freq 59)
   \<and> \<not> rel_close (midi_freq 58) (midi_freq 59)"
proof -
  have a: "Note_note ''Bb3'' = Inr 58" by (code_simp)
  have "''Bb'' \<notin> set Note_names" by (simp add: Note_names_def)
  then have b: "Sample_note_to_freq ''Bb'' 3 440 = Inl KeyError"
    by (simp add: Sample_note_to_freq_def note_map_None)
  have mB: "note_map ''B'' = Some 11" by (code_simp)
  have lo: "- float_limit < 11 + (3 - 1) * 12 + 1 - 46"
    using float_limit_big by (arith)
  have c: "Sample_note_to_freq ''B'' 3 440 = Inr (midi_freq 59)"
    using note_to_freq_in_range[OF mB lo, of 440] by (simp add: midi_freq_def)
  have d: "\<not> rel_close (midi_freq 58) (midi_freq 59)"
    using semitone_not_close[of 58] by (simp)
  from a b c d show ?thesis by (blast)
qed

text \<open>
  Claim C2, amended. For every name of the table of twelve sharp-spelled pitch classes
  and every octave digit, the note string made of the name and the digit resolves to a
  pitch \<open>p\<close>, and \<^verbatim>\<open>Sample.note_to_freq\<close> on the name and the octave returns
  \<open>440 * 2 ^ ((p - 69) / 12)\<close>: exactly in the arithmetic of the model, hence within a
  relative error of \<open>1e-6\<close>.
\<close>

theorem cross_check_canonical:
  "\<forall>nm k. nm \<in> set Note_names \<and> k < 10 \<longrightarrow>
     (\<exists>p f. Note_note (nm @ str_int (int k)) = Inr p
        \<and> Sample_note_to_freq nm (int k) 440 = Inr f
        \<and> f = midi_freq p \<and> rel_close (midi_freq p) f)"
proof (intro allI impI)
  fix nm and k :: nat
  assume h: "nm \<in> set Note_names \<and> k < 10"
  let ?i = "int (position nm Note_names)"
  have p: "Note_note (nm @ str_int (int k)) = Inr (12 * (int k + 1) + ?i)"
    using names_note_all h by (simp)
  have m: "note_map nm = Some ?i" using note_map_all h by (blast)
  have e: "?i + (int k - 1) * 12 + 1 - 46 = 12 * (int k + 1) + ?i - 69" by (simp)
  have f: "Sample_note_to_freq nm (int k) 440 = Inr (midi_freq (12 * (int k + 1) + ?i))"
  proof -
    have b: "position nm Note_names < 12" using position_bound h by (blast)
    have lo: "- float_limit < ?i + (int k - 1) * 12 + 1 - 46"
      using float_limit_big by (arith)
    have k: "int k < 10" using h by (simp)
    have b': "?i < 12" using b by (simp)
    have hi: "?i + (int k - 1) * 12 + 1 - 46 < 12288" using b' k by (arith)
    show ?thesis
      using note_to_freq_in_range[OF m lo hi, of 440] unfolding e midi_freq_def .
  qed
  show "\<exists>p f. Note_note (nm @ str_int (int k)) = Inr p
        \<and> Sample_note_to_freq nm (int k) 440 = Inr f
        \<and> f = midi_freq p \<and> rel_close (midi_freq p) f"
    using p f by (simp add: rel_close_def)
qed

theorem cross_check_canonical_witness:
  "''Cs'' \<in> set Note_names \<and> (4::nat) < 10
   \<and> (\<exists>p f. Note_note (''Cs'' @ str_int (int 4)) = Inr p
        \<and> Sample_note_to_freq ''Cs'' (int 4) 440 = Inr f
        \<and> f = midi_freq p \<and> rel_close (midi_freq p) f)"
proof -
  have h: "''Cs'' \<in> set Note_names \<and> (4::nat) < 10" by (simp add: Note_names_def)
  with cross_check_canonical show ?thesis by (blast)
qed

section \<open>One call of the transform tool\<close>

lemma ln2_pos: "0 < ln (2::real)" by (simp)

lemma shift_cents_ok:
  assumes "0 < f" "0 < f + of_int d"
  shows "shift_cents_of f d = Inr (cents f d)"
proof (cases "d = 0")
  case True
  then show ?thesis by (simp add: shift_cents_of_def cents_def)
next
  case False
  have x: "0 < (f + of_int d) / f" using assms by (simp)
  have "math_log ((f + of_int d) / f) 2 = Inr (ln ((f + of_int d) / f) / ln 2)"
    using x ln2_pos unfolding math_log_def by (simp)
  then show ?thesis
    using False assms(1) by (simp add: shift_cents_of_def cents_def log_def)
qed

lemma transform_wav_ok:
  assumes "0 < freq s" "0 < freq s + of_int d"
  shows "Sample_transform_wav ev s suffix start dur d hz bits tr
           = Inr (s\<lparr>new_freq := Some (freq s + of_int d)\<rparr>,
                  tr @ [PrintWriting (wav_file_of (sample_name s) (freq s + of_int d) d suffix)
                          hz bits (cents (freq s) d),
                        Sox (tmp_filename s) hz bits
                          (wav_file_of (sample_name s) (freq s + of_int d) d suffix)
                          (cents (freq s) d) start dur])"
  using shift_cents_ok[OF assms]
  by (simp add: Sample_transform_wav_def os_system_def Let_def)

lemma transform_wav_shape:
  assumes "Sample_transform_wav ev s suffix start dur d hz bits tr = Inr (s', tr')"
  shows "\<exists>c. tr' = tr @ [PrintWriting (wav_file_of (sample_name s) (freq s + of_int d) d suffix) hz bits c,
                        Sox (tmp_filename s) hz bits
                          (wav_file_of (sample_name s) (freq s + of_int d) d suffix) c start dur]"
  using assms
  by (auto simp add: Sample_transform_wav_def os_system_def Let_def split: sum.splits)



text \<open>
  Claim C6. For every base frequency \<open>f > 0\<close> and every pitch-shift offset \<open>d\<close>, which
  is 0 or a positive integer, the call of \<^verbatim>\<open>transform_wav\<close> returns, and the cents value
  that it prints and hands to the transform tool is \<open>1200 * log2 ((f + d) / f)\<close> when \<open>d\<close>
  is not 0, and exactly 0 when \<open>d\<close> is 0.
\<close>

theorem cents_handed_to_tool:
  "\<forall>ev (s::Sample) suffix start dur d hz bits tr.
     0 < freq s \<and> 0 \<le> d \<longrightarrow>
     (\<exists>s' out. Sample_transform_wav ev s suffix start dur d hz bits tr
        = Inr (s', tr @ [PrintWriting out hz bits
                           (if d \<noteq> 0 then 1200 * log 2 ((freq s + of_int d) / freq s) else 0),
                         Sox (tmp_filename s) hz bits out
                           (if d \<noteq> 0 then 1200 * log 2 ((freq s + of_int d) / freq s) else 0)
                           start dur]))"
proof (intro allI impI)
  fix ev and s :: Sample and suffix start dur and d :: int and hz bits tr
  assume h: "0 < freq s \<and> 0 \<le> d"
  then have a: "0 < freq s" and d: "0 \<le> d" by (simp_all)
  have b: "0 < freq s + real_of_int d" using a d by (simp add: add_pos_nonneg)
  show "\<exists>s' out. Sample_transform_wav ev s suffix start dur d hz bits tr
        = Inr (s', tr @ [PrintWriting out hz bits
                           (if d \<noteq> 0 then 1200 * log 2 ((freq s + of_int d) / freq s) else 0),
                         Sox (tmp_filename s) hz bits out
                           (if d \<noteq> 0 then 1200 * log 2 ((freq s + of_int d) / freq s) else 0)
                           start dur])"
    unfolding transform_wav_ok[OF a b] cents_def by (blast)
qed

theorem cents_handed_to_tool_witness:
  "0 < freq sample_A4 \<and> (0::int) \<le> 40 \<and> (0::int) \<le> 0
   \<and> (\<exists>s' out. Sample_transform_wav all_succeed sample_A4 ''decay'' (66 / 100) (33 / 100) 40 44100 16 []
        = Inr (s', [] @ [PrintWriting out 44100 16 (1200 * log 2 (480 / 440)),
                      Sox ''data/note-A4-P0-full.wav'' 44100 16 out (1200 * log 2 (480 / 440))
                        (66 / 100) (33 / 100)]))
   \<and> (\<exists>s' out. Sample_transform_wav all_succeed sample_A4 ''attack'' 0 (33 / 100) 0 44100 16 []
        = Inr (s', [] @ [PrintWriting out 44100 16 0,
                      Sox ''data/note-A4-P0-full.wav'' 44100 16 out 0 0 (33 / 100)]))"
proof -
  have h: "0 < freq sample_A4 \<and> (0::int) \<le> 40"
    and h0: "0 < freq sample_A4 \<and> (0::int) \<le> 0"
    by (simp_all add: sample_A4_def)
  have f: "freq sample_A4 = 440" "tmp_filename sample_A4 = ''data/note-A4-P0-full.wav''"
    by (simp_all add: sample_A4_def)
  note 1 = cents_handed_to_tool[rule_format, OF h, of all_succeed "''decay''" "66 / 100" "33 / 100" 44100 16 "[]"]
  note 2 = cents_handed_to_tool[rule_format, OF h0, of all_succeed "''attack''" 0 "33 / 100" 44100 16 "[]"]
  from 1 2 h show ?thesis unfolding f by (simp)
qed

section \<open>The name of an output file\<close>

lemma digit_char_all:
  "\<forall>i \<in> set [0..<10]. digit_char i \<in> set ''0123456789'' \<and> digit_char i \<noteq> CHR ''-'' \<and> digit_char i \<noteq> CHR ''S''
     \<and> (\<forall>j \<in> set [0..<10]. digit_char i = digit_char j \<longrightarrow> i = j)"
  by (code_simp)

lemma digit_char_props:
  assumes "i < 10"
  shows "digit_char i \<noteq> CHR ''-''" "digit_char i \<noteq> CHR ''S''"
  using digit_char_all assms by (simp_all)

lemma digit_char_inj: "i < 10 \<Longrightarrow> j < 10 \<Longrightarrow> digit_char i = digit_char j \<Longrightarrow> i = j"
  using digit_char_all by (simp)

lemma str_nat_small: "n < 10 \<Longrightarrow> str_nat n = [digit_char n]"
  by (simp add: str_nat.simps[of n])

lemma str_nat_big: "\<not> n < 10 \<Longrightarrow> str_nat n = str_nat (n div 10) @ [digit_char (n mod 10)]"
  by (simp add: str_nat.simps[of n])

lemma str_nat_nonempty: "str_nat n \<noteq> []"
  by (cases "n < 10") (simp_all add: str_nat_small str_nat_big)

lemma str_nat_chars: "c \<in> set (str_nat n) \<Longrightarrow> c \<noteq> CHR ''-'' \<and> c \<noteq> CHR ''S''"
proof (induction n arbitrary: c rule: str_nat.induct)
  case (1 n)
  show ?case
  proof (cases "n < 10")
    case True
    with 1(2) show ?thesis by (auto simp: str_nat_small digit_char_props)
  next
    case False
    have m: "n mod 10 < 10" by (simp)
    from 1(2) False have "c \<in> set (str_nat (n div 10)) \<or> c = digit_char (n mod 10)"
      by (auto simp add: str_nat_big)
    then show ?thesis
      using 1(1)[OF False] digit_char_props[OF m] by (auto)
  qed
qed

lemma str_nat_inj: "str_nat m = str_nat n \<Longrightarrow> m = n"
proof (induction m arbitrary: n rule: str_nat.induct)
  case (1 m)
  show ?case
  proof (cases "m < 10")
    case True
    show ?thesis
    proof (cases "n < 10")
      case n: True
      with True 1(2) show ?thesis by (simp add: str_nat_small digit_char_inj)
    next
      case False
      with True 1(2) show ?thesis
        using str_nat_nonempty[of "n div 10"] by (simp add: str_nat_small str_nat_big)
    qed
  next
    case False
    show ?thesis
    proof (cases "n < 10")
      case True
      with False 1(2) show ?thesis
        using str_nat_nonempty[of "m div 10"] by (simp add: str_nat_small str_nat_big)
    next
      case n: False
      from 1(2) False n
      have a: "str_nat (m div 10) = str_nat (n div 10)"
        and b: "digit_char (m mod 10) = digit_char (n mod 10)"
        by (simp_all add: str_nat_big)
      have "m div 10 = n div 10" using 1(1)[OF False a] .
      moreover have "m mod 10 = n mod 10" using digit_char_inj[OF _ _ b] by (simp)
      ultimately show ?thesis by (metis div_mult_mod_eq)
    qed
  qed
qed

lemma str_int_no_S: "CHR ''S'' \<notin> set (str_int d)"
  using str_nat_chars by (auto simp: str_int_def)

lemma str_int_inj: "str_int a = str_int b \<Longrightarrow> a = b"
proof -
  assume h: "str_int a = str_int b"
  have hd_nat: "hd (str_nat n) \<noteq> CHR ''-''" for n
    using str_nat_chars[of "hd (str_nat n)" n] str_nat_nonempty[of n] by (simp)
  have ne: "str_nat n \<noteq> CHR ''-'' # t" for n t
    using hd_nat[of n] by (auto)
  show ?thesis
  proof (cases "a < 0")
    case True
    show ?thesis
    proof (cases "b < 0")
      case b: True
      with True h have "str_nat (nat (- a)) = str_nat (nat (- b))" by (simp add: str_int_def)
      then have "nat (- a) = nat (- b)" by (rule str_nat_inj)
      with True b show ?thesis by (simp)
    next
      case False
      with True h ne[of "nat b" "str_nat (nat (- a))"] show ?thesis by (simp add: str_int_def)
    qed
  next
    case False
    show ?thesis
    proof (cases "b < 0")
      case True
      with False h ne[of "nat a" "str_nat (nat (- b))"] show ?thesis by (simp add: str_int_def)
    next
      case b: False
      with False h have "str_nat (nat a) = str_nat (nat b)" by (simp add: str_int_def)
      then have "nat a = nat b" by (rule str_nat_inj)
      with False b show ?thesis by (simp)
    qed
  qed
qed

lemma split_at_last:
  assumes "c \<notin> set v1" "c \<notin> set v2" "u1 @ c # v1 = u2 @ c # v2"
  shows "v1 = v2"
proof -
  have "takeWhile (\<lambda>x. x \<noteq> c) (rev (u1 @ c # v1)) = rev v1"
    using assms(1) by (auto simp add: takeWhile_tail)
  moreover have "takeWhile (\<lambda>x. x \<noteq> c) (rev (u2 @ c # v2)) = rev v2"
    using assms(2) by (auto simp add: takeWhile_tail)
  ultimately have "rev v1 = rev v2" using assms(3) by (simp)
  then show ?thesis by (simp)
qed

lemma wav_file_inj:
  assumes s1: "seg1 \<in> {''attack'', ''sustain'', ''decay''}"
      and s2: "seg2 \<in> {''attack'', ''sustain'', ''decay''}"
      and eq: "wav_file_of nm nf1 d1 seg1 = wav_file_of nm nf2 d2 seg2"
  shows "d1 = d2 \<and> seg1 = seg2"
proof -
  let ?P1 = "(nm @ ''-'' @ fmt_3f nf1 @ ''-'') @ CHR ''S'' # str_int d1"
  let ?P2 = "(nm @ ''-'' @ fmt_3f nf2 @ ''-'') @ CHR ''S'' # str_int d2"
  have e: "rev (''-'' @ seg1 @ ''.wav'') @ rev ?P1 = rev (''-'' @ seg2 @ ''.wav'') @ rev ?P2"
    using arg_cong[OF eq, of rev] unfolding wav_file_of_def by (simp)
  have "seg1 = seg2 \<and> rev ?P1 = rev ?P2"
    using s1 s2 e by (auto)
  then have seg: "seg1 = seg2" and rp: "rev ?P1 = rev ?P2" by blast+
  have p: "?P1 = ?P2" using rp by (simp only: rev_is_rev_conv)
  have "str_int d1 = str_int d2"
    using split_at_last[OF str_int_no_S str_int_no_S p] .
  then have "d1 = d2" by (rule str_int_inj)
  with seg show ?thesis by (simp)
qed

lemma str_nat_0: "str_nat 0 = ''0''" by (code_simp)
lemma str_int_0: "str_int 0 = ''0''" by (code_simp)

lemma fmt_3f_440: "fmt_3f 440 = ''440.000''"
proof -
  have "str_nat 440 = ''440''" by (code_simp)
  then show ?thesis
    by (simp add: fmt_3f_def round_half_even_def digit_char_def)
qed

text \<open>
  Claim C7. The file that a call of \<^verbatim>\<open>transform_wav\<close> names to the transform tool is the
  job name, the resulting frequency (the base frequency plus the shift) with three
  decimals, \<open>S\<close> and the shift, and the segment label, joined by hyphens and ended by
  \<open>.wav\<close>; the resulting frequency is stored in the sample. For one job and one base
  frequency, two different pairs of a shift and a segment among attack, sustain and decay
  never get the same file name.
\<close>

theorem wav_file_label:
  "(\<forall>ev (s::Sample) suffix start dur d hz bits tr s' tr'.
      Sample_transform_wav ev s suffix start dur d hz bits tr = Inr (s', tr') \<longrightarrow>
        (\<exists>c. last tr' = Sox (tmp_filename s) hz bits
                 (sample_name s @ ''-'' @ fmt_3f (freq s + of_int d) @ ''-'' @ ''S'' @ str_int d
                    @ ''-'' @ suffix @ ''.wav'') c start dur)
        \<and> new_freq s' = Some (freq s + of_int d))
   \<and> (\<forall>nm f d1 d2 seg1 seg2.
        seg1 \<in> {''attack'', ''sustain'', ''decay''} \<and> seg2 \<in> {''attack'', ''sustain'', ''decay''}
        \<and> (d1, seg1) \<noteq> (d2, seg2) \<longrightarrow>
        wav_file_of nm (f + of_int d1) d1 seg1 \<noteq> wav_file_of nm (f + of_int d2) d2 seg2)
   \<and> (\<forall>nm nf d suffix.
        wav_file_of nm nf d suffix
          = nm @ ''-'' @ fmt_3f nf @ ''-'' @ ''S'' @ str_int d @ ''-'' @ suffix @ ''.wav'')"
proof -
  have a: "(\<exists>c. last tr' = Sox (tmp_filename s) hz bits
                 (sample_name s @ ''-'' @ fmt_3f (freq s + of_int d) @ ''-'' @ ''S'' @ str_int d
                    @ ''-'' @ suffix @ ''.wav'') c start dur)
        \<and> new_freq s' = Some (freq s + of_int d)"
    if h: "Sample_transform_wav ev s suffix start dur d hz bits tr = Inr (s', tr')"
    for ev and s :: Sample and suffix start dur d hz bits tr s' tr'
  proof -
    from transform_wav_shape[OF h] have "\<exists>c. last tr' = Sox (tmp_filename s) hz bits
                 (sample_name s @ ''-'' @ fmt_3f (freq s + of_int d) @ ''-'' @ ''S'' @ str_int d
                    @ ''-'' @ suffix @ ''.wav'') c start dur"
      unfolding wav_file_of_def by (auto)
    moreover have "new_freq s' = Some (freq s + of_int d)"
      using h by (auto simp add: Sample_transform_wav_def os_system_def Let_def split: sum.splits)
    ultimately show ?thesis by (blast)
  qed
  have b: "wav_file_of nm (f + of_int d1) d1 seg1 \<noteq> wav_file_of nm (f + of_int d2) d2 seg2"
    if "seg1 \<in> {''attack'', ''sustain'', ''decay''} \<and> seg2 \<in> {''attack'', ''sustain'', ''decay''}
        \<and> (d1, seg1) \<noteq> (d2, seg2)" for nm f d1 d2 seg1 seg2
  proof
    assume e: "wav_file_of nm (f + of_int d1) d1 seg1 = wav_file_of nm (f + of_int d2) d2 seg2"
    from that have s1: "seg1 \<in> {''attack'', ''sustain'', ''decay''}"
      and s2: "seg2 \<in> {''attack'', ''sustain'', ''decay''}" and ne: "(d1, seg1) \<noteq> (d2, seg2)"
      by blast+
    from wav_file_inj[OF s1 s2 e] ne show False by (simp)
  qed
  have c: "wav_file_of nm nf d suffix
          = nm @ ''-'' @ fmt_3f nf @ ''-'' @ ''S'' @ str_int d @ ''-'' @ suffix @ ''.wav''"
    for nm nf d suffix
    by (simp add: wav_file_of_def)
  from a b c show ?thesis by (blast)
qed

theorem wav_file_label_witness:
  "Sample_transform_wav all_succeed sample_A4 ''attack'' 0 (33 / 100) 0 44100 16 []
     = Inr (sample_A4\<lparr>new_freq := Some 440\<rparr>,
            [PrintWriting ''data/note-A4-P0-440.000-S0-attack.wav'' 44100 16 0,
             Sox ''data/note-A4-P0-full.wav'' 44100 16 ''data/note-A4-P0-440.000-S0-attack.wav''
               0 0 (33 / 100)])
   \<and> new_freq (sample_A4\<lparr>new_freq := Some 440\<rparr>) = Some (freq sample_A4 + of_int 0)
   \<and> ''attack'' \<in> {''attack'', ''sustain'', ''decay''} \<and> ''decay'' \<in> {''attack'', ''sustain'', ''decay''}
   \<and> ((0::int), ''attack'') \<noteq> (10, ''decay'')
   \<and> wav_file_of ''data/note-A4-P0'' (440 + of_int 0) 0 ''attack''
        \<noteq> wav_file_of ''data/note-A4-P0'' (440 + of_int 10) 10 ''decay''
   \<and> wav_file_of ''data/note-A4-P0'' 440 0 ''attack'' = ''data/note-A4-P0-440.000-S0-attack.wav''"
proof -
  have w: "wav_file_of ''data/note-A4-P0'' 440 0 ''attack'' = ''data/note-A4-P0-440.000-S0-attack.wav''"
    by (simp add: wav_file_of_def fmt_3f_440 str_int_0)
  have f: "0 < freq sample_A4" "0 < freq sample_A4 + of_int 0"
    by (simp_all add: sample_A4_def)
  have n: "freq sample_A4 = 440" "sample_name sample_A4 = ''data/note-A4-P0''"
    "tmp_filename sample_A4 = ''data/note-A4-P0-full.wav''"
    by (simp_all add: sample_A4_def)
  have t: "Sample_transform_wav all_succeed sample_A4 ''attack'' 0 (33 / 100) 0 44100 16 []
     = Inr (sample_A4\<lparr>new_freq := Some 440\<rparr>,
            [PrintWriting ''data/note-A4-P0-440.000-S0-attack.wav'' 44100 16 0,
             Sox ''data/note-A4-P0-full.wav'' 44100 16 ''data/note-A4-P0-440.000-S0-attack.wav''
               0 0 (33 / 100)])"
    using transform_wav_ok[OF f, of all_succeed "''attack''" 0 "33 / 100" 44100 16 "[]"] w
    by (simp add: n cents_def)
  have a: "new_freq (sample_A4\<lparr>new_freq := Some 440\<rparr>) = Some (freq sample_A4 + of_int 0)"
    using wav_file_label[THEN conjunct1, rule_format, OF t] by (rule conjunct2)
  have s: "''attack'' \<in> {''attack'', ''sustain'', ''decay''} \<and> ''decay'' \<in> {''attack'', ''sustain'', ''decay''}
     \<and> ((0::int), ''attack'') \<noteq> (10, ''decay'')"
    by (simp)
  have b: "wav_file_of ''data/note-A4-P0'' (440 + of_int 0) 0 ''attack''
        \<noteq> wav_file_of ''data/note-A4-P0'' (440 + of_int 10) 10 ''decay''"
    using wav_file_label[THEN conjunct2, THEN conjunct1, rule_format, OF s] .
  from t a s b w show ?thesis by (intro conjI; blast)
qed

section \<open>One job\<close>

lemma augmentations_append: "augmentations (xs @ ys) = augmentations xs @ augmentations ys"
  by (simp add: augmentations_def)

lemma shift_body_ok:
  assumes f: "0 < freq s" and d: "0 \<le> d"
  shows "\<exists>s'. shift_body ev d (s, tr)
           = Inr (s', tr @ [PrintWriting (wav_file_of (sample_name s) (freq s + of_int d) d ''attack'')
                              44100 16 (cents (freq s) d),
                            instruction s d ''attack'' 0 (33 / 100),
                            PrintWriting (wav_file_of (sample_name s) (freq s + of_int d) d ''sustain'')
                              44100 16 (cents (freq s) d),
                            instruction s d ''sustain'' (33 / 100) (33 / 100),
                            PrintWriting (wav_file_of (sample_name s) (freq s + of_int d) d ''decay'')
                              44100 16 (cents (freq s) d),
                            instruction s d ''decay'' (66 / 100) (33 / 100)])
         \<and> freq s' = freq s \<and> sample_name s' = sample_name s \<and> tmp_filename s' = tmp_filename s"
proof -
  let ?s1 = "s\<lparr>new_freq := Some (freq s + of_int d)\<rparr>"
  have p: "0 < freq s + of_int d" using f d by (simp add: add_pos_nonneg)
  have f1: "0 < freq ?s1" "0 < freq ?s1 + of_int d" using f p by (simp_all)
  note a = transform_wav_ok[OF f p, of ev "''attack''" 0 "33 / 100" 44100 16 tr]
  note b = transform_wav_ok[OF f1, of ev "''sustain''" "33 / 100" "33 / 100" 44100 16]
  note c = transform_wav_ok[OF f1, of ev "''decay''" "33 / 50" "33 / 100" 44100 16]
  show ?thesis
    unfolding shift_body_def by (simp add: a b c instruction_def)
qed

lemma shift_loop_ok:
  assumes "0 < freq s" "\<forall>d \<in> set ds. 0 \<le> d"
  shows "\<exists>s' tr'. for_each (shift_body ev) ds (s, tr) = Inr (s', tr')
           \<and> augmentations tr' = augmentations tr @ plan s ds"
  using assms
proof (induction ds arbitrary: s tr)
  case Nil
  then show ?case by (simp add: plan_def)
next
  case (Cons d ds)
  from Cons.prems have d: "0 \<le> d" and ds: "\<forall>d \<in> set ds. 0 \<le> d" by (simp_all)
  from shift_body_ok[OF Cons.prems(1) d, of ev tr]
  obtain s1 tr1 where b: "shift_body ev d (s, tr) = Inr (s1, tr1)"
    and tr1: "augmentations tr1 = augmentations tr @ [instruction s d ''attack'' 0 (33 / 100),
                 instruction s d ''sustain'' (33 / 100) (33 / 100),
                 instruction s d ''decay'' (66 / 100) (33 / 100)]"
    and same: "freq s1 = freq s" "sample_name s1 = sample_name s" "tmp_filename s1 = tmp_filename s"
    by (auto simp add: augmentations_def instruction_def)
  have f1: "0 < freq s1" using same Cons.prems(1) by (simp)
  from Cons.IH[OF f1 ds, of tr1]
  obtain s2 tr2 where r: "for_each (shift_body ev) ds (s1, tr1) = Inr (s2, tr2)"
    and tr2: "augmentations tr2 = augmentations tr1 @ plan s1 ds" by (blast)
  have pl: "plan s1 ds = plan s ds"
    using same by (simp add: plan_def instruction_def)
  have "for_each (shift_body ev) (d # ds) (s, tr) = Inr (s2, tr2)"
    using b r by (simp)
  moreover have "augmentations tr2 = augmentations tr @ plan s (d # ds)"
    using tr2 tr1 pl by (simp add: plan_def)
  ultimately show ?case by (blast)
qed

lemma shift_offsets_eq:
  "shift_offsets g = (0 # map (\<lambda>j. 10 + int (g j mod 70)) [0..<5], \<lambda>j. g (j + 5))"
  by (simp add: shift_offsets_def np_random_randint_def)

lemma plan_length: "length (plan s ds) = 3 * length ds"
  by (induction ds) (simp_all add: plan_def)

lemma offsets_shape:
  "\<exists>draws. fst (shift_offsets g) = 0 # draws \<and> length draws = 5 \<and> (\<forall>d \<in> set draws. 10 \<le> d \<and> d \<le> 79)"
proof -
  have "\<forall>d \<in> set (map (\<lambda>j. 10 + int (g j mod 70)) [0..<5]). 10 \<le> d \<and> d \<le> 79"
  proof
    fix d assume "d \<in> set (map (\<lambda>j. 10 + int (g j mod 70)) [0..<5])"
    then obtain j where d: "d = 10 + int (g j mod 70)" by (auto)
    have "g j mod 70 < 70" by (simp)
    then show "10 \<le> d \<and> d \<le> 79" unfolding d by (linarith)
  qed
  then show ?thesis unfolding shift_offsets_eq by (simp)
qed

lemma offsets_length: "length (fst (shift_offsets g)) = 6"
  by (simp add: shift_offsets_eq)

lemma Sample_init_ok:
  assumes k: "k \<in> set Note_names" and o: "0 \<le> oct" "oct \<le> 9"
  shows "\<exists>s. Sample_init nm program k oct 100 60 = Inr s \<and> 0 < freq s \<and> sample_name s = nm
           \<and> tmp_filename s = nm @ ''-full.wav'' \<and> mid_filename s = nm @ ''.mid''"
proof -
  let ?i = "int (position k Note_names)"
  have n: "nat oct \<in> set [0..<10]" using o by (simp)
  have oct: "int (nat oct) = oct" using o by (simp)
  from names_note_all k n
  have p: "Note_note (k @ str_int (int (nat oct))) = Inr (12 * (int (nat oct) + 1) + ?i)"
    by (blast)
  have m: "note_map k = Some ?i" using note_map_all k by (blast)
  have b: "?i < 12" using position_bound[OF k] by (simp)
  have lo: "- float_limit < ?i + (oct - 1) * 12 + 1 - 46"
    using o float_limit_big by (arith)
  have hi: "?i + (oct - 1) * 12 + 1 - 46 < 12288" using o b by (arith)
  note f = note_to_freq_in_range[OF m lo hi, of 440]
  show ?thesis
    using p unfolding oct by (simp add: Sample_init_def f)
qed

lemma make_wav_trace:
  assumes "write_file ev (mid_filename s) = None"
  shows "Sample_make_wav ev s tr
           = Inr (tr @ [WriteMidi (mid_filename s) (midi_file s),
                        Fluidsynth SOUNDFONT (mid_filename s) (tmp_filename s)])"
  using assms by (simp add: Sample_make_wav_def Sample_save_def os_system_def)

lemma make_wav_raises:
  assumes "write_file ev (mid_filename s) = Some e"
  shows "Sample_make_wav ev s tr = Inl e"
  using assms by (simp add: Sample_make_wav_def Sample_save_def)





lemma key_body_ok:
  assumes k: "k \<in> set Note_names" and o: "0 \<le> oct" "oct \<le> 9"
  shows "\<exists>s. Sample_init (job_name k oct program) program k oct 100 60 = Inr s
           \<and> 0 < freq s \<and> mid_filename s = job_name k oct program @ ''.mid''
           \<and> (write_file ev (mid_filename s) = None \<longrightarrow>
                (\<exists>st'. key_body ev oct program k st = Inr st'
                   \<and> augmentations (trace st')
                       = augmentations (trace st) @ plan s (fst (shift_offsets (entropy st)))))
           \<and> (\<forall>e. write_file ev (mid_filename s) = Some e \<longrightarrow>
                key_body ev oct program k st = Inl e)"
proof -
  from Sample_init_ok[OF k o, of "job_name k oct program" program]
  obtain s where i: "Sample_init (job_name k oct program) program k oct 100 60 = Inr s"
    and f: "0 < freq s" and mf: "mid_filename s = job_name k oct program @ ''.mid''"
    by (blast)
  let ?ds = "fst (shift_offsets (entropy st))"
  have ok: "\<exists>st'. key_body ev oct program k st = Inr st'
                   \<and> augmentations (trace st') = augmentations (trace st) @ plan s ?ds"
    if w: "write_file ev (mid_filename s) = None"
  proof -
    let ?tr1 = "trace st @ [WriteMidi (mid_filename s) (midi_file s),
                            Fluidsynth SOUNDFONT (mid_filename s) (tmp_filename s)]"
    have mw: "Sample_make_wav ev s (trace st) = Inr ?tr1" by (rule make_wav_trace[OF w])
    have a1: "augmentations ?tr1 = augmentations (trace st)"
      by (simp add: augmentations_def)
    have ds: "\<forall>d \<in> set ?ds. 0 \<le> d" by (auto simp add: shift_offsets_eq)
    from shift_loop_ok[OF f ds, of ev ?tr1]
    obtain s2 tr2 where l: "for_each (shift_body ev) ?ds (s, ?tr1) = Inr (s2, tr2)"
      and a2: "augmentations tr2 = augmentations ?tr1 @ plan s ?ds" by (blast)
    have "key_body ev oct program k st
            = Inr (st\<lparr>entropy := snd (shift_offsets (entropy st)), trace := Sample_clean s2 tr2\<rparr>)"
      using i mw l by (simp add: key_body_def case_prod_beta Let_def)
    moreover have "augmentations (Sample_clean s2 tr2) = augmentations (trace st) @ plan s ?ds"
      using a1 a2 by (simp add: Sample_clean_def augmentations_def)
    ultimately show ?thesis by (simp)
  qed
  have bad: "key_body ev oct program k st = Inl e" if w: "write_file ev (mid_filename s) = Some e" for e
    using i make_wav_raises[OF w, of "trace st"] by (simp add: key_body_def)
  show ?thesis
    apply (rule exI[of _ s])
    using i f mf ok bad apply (auto)
    done
qed

lemma job_loop_ok:
  assumes k: "k \<in> set Note_names" and o: "0 \<le> oct" "oct \<le> 9"
      and i: "Sample_init (job_name k oct program) program k oct 100 60 = Inr s"
  shows "\<exists>s' tr'. for_each (shift_body ev) (fst (shift_offsets g)) (s, tr) = Inr (s', tr')
           \<and> augmentations tr' = augmentations tr @ plan s (fst (shift_offsets g))"
proof -
  from Sample_init_ok[OF k o, of "job_name k oct program" program] i
  have f: "0 < freq s" by (auto)
  have ds: "\<forall>d \<in> set (fst (shift_offsets g)). 0 \<le> d" by (auto simp add: shift_offsets_eq)
  show ?thesis by (rule shift_loop_ok[OF f ds])
qed

lemma key_body_attempted:
  assumes k: "k \<in> set Note_names" and o: "0 \<le> oct" "oct \<le> 9"
      and w: "write_file ev (job_name k oct program @ ''.mid'') = None"
  shows "attempted (key_body ev oct program k st) = Inr (length (augmentations (trace st)) + 18)"
proof -
  from key_body_ok[OF k o, of program ev st] w
  obtain s st' where r: "key_body ev oct program k st = Inr st'"
    and a: "augmentations (trace st')
               = augmentations (trace st) @ plan s (fst (shift_offsets (entropy st)))"
    by (auto)
  show ?thesis
    unfolding attempted_def r by (simp add: a plan_length offsets_length)
qed

lemma key_body_raises:
  assumes k: "k \<in> set Note_names" and o: "0 \<le> oct" "oct \<le> 9"
      and w: "write_file ev (job_name k oct program @ ''.mid'') = Some e"
  shows "key_body ev oct program k st = Inl e"
  using key_body_ok[OF k o, of program ev st] w by (auto)

lemma trim_instruction: "trim (instruction s d suffix start dur) = (start, dur)"
  by (simp add: instruction_def)

lemma trim_plan:
  assumes "ds \<noteq> []"
  shows "trim ` set (plan s ds) = {(0, 33 / 100), (33 / 100, 33 / 100), (66 / 100, 33 / 100)}"
proof -
  have "set (plan s ds) = (\<Union>d \<in> set ds. {instruction s d ''attack'' 0 (33 / 100),
                 instruction s d ''sustain'' (33 / 100) (33 / 100),
                 instruction s d ''decay'' (66 / 100) (33 / 100)})"
    by (simp add: plan_def)
  then have "trim ` set (plan s ds) = (\<Union>d \<in> set ds. {(0, 33 / 100), (33 / 100, 33 / 100), (66 / 100, 33 / 100)})"
    by (simp add: image_UN trim_instruction del: trim.simps)
  also have "\<dots> = {(0, 33 / 100), (33 / 100, 33 / 100), (66 / 100, 33 / 100)}"
    using assms by (simp)
  finally show ?thesis .
qed

lemma windows_facts:
  fixes W :: "(real \<times> real) set"
  assumes W: "W = {(0, 33 / 100), (33 / 100, 33 / 100), (66 / 100, 33 / 100)}"
  shows "(\<forall>w \<in> W. snd w = 33 / 100 \<and> fst w \<in> {0, 33 / 100, 66 / 100})"
    and "(\<Union>w \<in> W. {fst w .. fst w + snd w}) = {0 .. 99 / 100}"
    and "(\<forall>w \<in> W. \<forall>v \<in> W. w \<noteq> v \<longrightarrow> {fst w ..< fst w + snd w} \<inter> {fst v ..< fst v + snd v} = {})"
proof -
  show "(\<forall>w \<in> W. snd w = 33 / 100 \<and> fst w \<in> {0, 33 / 100, 66 / 100})"
    unfolding W by (simp)
  show "(\<Union>w \<in> W. {fst w .. fst w + snd w}) = {0 .. 99 / 100}"
    unfolding W by (auto)
  show "(\<forall>w \<in> W. \<forall>v \<in> W. w \<noteq> v \<longrightarrow> {fst w ..< fst w + snd w} \<inter> {fst v ..< fst v + snd v} = {})"
    unfolding W by (auto)
qed

section \<open>The render step and the augmentation of a job\<close>





text \<open>
  Claim C8. For every job the shift offsets are the baseline 0 followed by \<open>n = 5\<close>
  values drawn from the integer range 10 to 79 (numpy's upper bound 80 is excluded), each
  value of the range can be drawn, and every offset is paired with the three segments
  attack, sustain and decay in this order, as \<open>plan\<close> lays out: the loop over the offsets
  hands exactly \<open>3 * (5 + 1)\<close> instructions to the transform tool, from whatever trace it
  starts, and so does the job once its MIDI file is written. The distribution of the draws
  is outside the model, which takes the entropy as an input.
\<close>

theorem augmentation_plan:
  "(\<forall>(ev::env) (oct::int) program k st. k \<in> set Note_names \<and> 0 \<le> oct \<and> oct \<le> 9 \<longrightarrow>
      (\<exists>s draws.
          Sample_init (job_name k oct program) program k oct 100 60 = Inr s
        \<and> fst (shift_offsets (entropy st)) = 0 # draws
        \<and> length draws = 5 \<and> (\<forall>d \<in> set draws. 10 \<le> d \<and> d \<le> 79)
        \<and> length (plan s (0 # draws)) = 3 * (5 + 1)
        \<and> (\<forall>tr. \<exists>s' tr'. for_each (shift_body ev) (0 # draws) (s, tr) = Inr (s', tr')
                   \<and> augmentations tr' = augmentations tr @ plan s (0 # draws))
        \<and> (write_file ev (mid_filename s) = None \<longrightarrow>
             (\<exists>st'. key_body ev oct program k st = Inr st'
                \<and> augmentations (trace st') = augmentations (trace st) @ plan s (0 # draws)))))
   \<and> (\<forall>v. 10 \<le> v \<and> v \<le> 79 \<longrightarrow> (\<exists>g. v \<in> set (fst (shift_offsets g))))"
proof -
  have a: "\<exists>s draws.
          Sample_init (job_name k oct program) program k oct 100 60 = Inr s
        \<and> fst (shift_offsets (entropy st)) = 0 # draws
        \<and> length draws = 5 \<and> (\<forall>d \<in> set draws. 10 \<le> d \<and> d \<le> 79)
        \<and> length (plan s (0 # draws)) = 3 * (5 + 1)
        \<and> (\<forall>tr. \<exists>s' tr'. for_each (shift_body ev) (0 # draws) (s, tr) = Inr (s', tr')
                   \<and> augmentations tr' = augmentations tr @ plan s (0 # draws))
        \<and> (write_file ev (mid_filename s) = None \<longrightarrow>
             (\<exists>st'. key_body ev oct program k st = Inr st'
                \<and> augmentations (trace st') = augmentations (trace st) @ plan s (0 # draws)))"
    if h: "k \<in> set Note_names \<and> 0 \<le> oct \<and> oct \<le> 9" for ev :: env and oct :: int and program k and st :: state
  proof -
    from h have k: "k \<in> set Note_names" and o: "0 \<le> oct" "oct \<le> 9" by (simp_all)
    from key_body_ok[OF k o, of program ev st]
    obtain s where i: "Sample_init (job_name k oct program) program k oct 100 60 = Inr s"
      and r: "write_file ev (mid_filename s) = None \<longrightarrow>
                (\<exists>st'. key_body ev oct program k st = Inr st'
                   \<and> augmentations (trace st')
                       = augmentations (trace st) @ plan s (fst (shift_offsets (entropy st))))"
      by (auto)
    from offsets_shape[of "entropy st"]
    obtain draws where d: "fst (shift_offsets (entropy st)) = 0 # draws" "length draws = 5"
      "\<forall>d \<in> set draws. 10 \<le> d \<and> d \<le> 79" by (blast)
    have l: "length (plan s (0 # draws)) = 3 * (5 + 1)"
      using d(2) by (simp add: plan_length)
    have lp: "\<forall>tr. \<exists>s' tr'. for_each (shift_body ev) (0 # draws) (s, tr) = Inr (s', tr')
                   \<and> augmentations tr' = augmentations tr @ plan s (0 # draws)"
      using job_loop_ok[OF k o i, of ev "entropy st"] unfolding d(1) by (blast)
    have r': "write_file ev (mid_filename s) = None \<longrightarrow>
             (\<exists>st'. key_body ev oct program k st = Inr st'
                \<and> augmentations (trace st') = augmentations (trace st) @ plan s (0 # draws))"
      using r unfolding d(1) .
    show ?thesis
      apply (rule exI[of _ s], rule exI[of _ draws])
      apply (intro conjI i d l lp r')
      done
  qed
  have b: "\<exists>g. v \<in> set (fst (shift_offsets g))" if v: "10 \<le> v \<and> v \<le> 79" for v
  proof
    have "nat (v - 10) < 70" using v by (arith)
    then have "nat (v - 10) mod 70 = nat (v - 10)" by (rule mod_less)
    then have "10 + int (nat (v - 10) mod 70) = v" using v by (simp)
    then have "fst (shift_offsets (\<lambda>j. nat (v - 10))) = 0 # map (\<lambda>j. v) [0..<5]"
      by (simp add: shift_offsets_eq)
    moreover have "(0::nat) \<in> set [0..<5]" by (simp)
    ultimately show "v \<in> set (fst (shift_offsets (\<lambda>j. nat (v - 10))))"
      by (simp only: set_map list.set image_iff; blast)
  qed
  from a b show ?thesis by (blast)
qed

theorem augmentation_plan_witness:
  "''A'' \<in> set Note_names \<and> (0::int) \<le> 4 \<and> (4::int) \<le> 9
   \<and> (\<exists>s draws.
          Sample_init (job_name ''A'' 4 0) 0 ''A'' 4 100 60 = Inr s
        \<and> fst (shift_offsets (entropy initial_state)) = 0 # draws
        \<and> length draws = 5 \<and> (\<forall>d \<in> set draws. 10 \<le> d \<and> d \<le> 79)
        \<and> length (plan s (0 # draws)) = 3 * (5 + 1)
        \<and> (\<forall>tr. \<exists>s' tr'. for_each (shift_body all_succeed) (0 # draws) (s, tr) = Inr (s', tr')
                   \<and> augmentations tr' = augmentations tr @ plan s (0 # draws))
        \<and> (write_file all_succeed (mid_filename s) = None \<longrightarrow>
             (\<exists>st'. key_body all_succeed 4 0 ''A'' initial_state = Inr st'
                \<and> augmentations (trace st')
                    = augmentations (trace initial_state) @ plan s (0 # draws))))
   \<and> write_file all_succeed (mid_filename sample_A4) = None
   \<and> fst (shift_offsets zero_entropy) = [0, 10, 10, 10, 10, 10]
   \<and> (10::int) \<le> 42 \<and> (42::int) \<le> 79 \<and> (\<exists>g. 42 \<in> set (fst (shift_offsets g)))"
proof -
  have h: "''A'' \<in> set Note_names \<and> (0::int) \<le> 4 \<and> (4::int) \<le> 9"
    using A_in_names by (simp)
  have v: "(10::int) \<le> 42 \<and> (42::int) \<le> 79" by (simp)
  note a = augmentation_plan[THEN conjunct1, rule_format, OF h, of 0 initial_state all_succeed]
  note b = augmentation_plan[THEN conjunct2, rule_format, OF v]
  have z: "fst (shift_offsets zero_entropy) = [0, 10, 10, 10, 10, 10]"
    by (simp add: shift_offsets_eq zero_entropy_def upt_rec)
  have w: "write_file all_succeed (mid_filename sample_A4) = None"
    by (simp add: all_succeed_def)
  show ?thesis
    by (intro conjI a b z w A_in_names) simp_all
qed

text \<open>
  Claim C9. In every job each shift is cut into the attack window starting at 0, the
  sustain window starting at 0.33 and the decay window starting at 0.66 seconds, each
  0.33 seconds long. These are the only trim windows that the loop over the offsets hands
  to the transform tool, from whatever trace it starts, and that the job hands over once
  its MIDI file is written; read as intervals closed at both ends they cover exactly
  \<open>[0, 0.99]\<close>, and read as intervals open at the end two different windows never overlap.
\<close>

theorem segment_windows:
  "\<forall>(ev::env) (oct::int) program k st. k \<in> set Note_names \<and> 0 \<le> oct \<and> oct \<le> 9 \<longrightarrow>
     (\<exists>s offsets new.
         Sample_init (job_name k oct program) program k oct 100 60 = Inr s
       \<and> offsets = fst (shift_offsets (entropy st))
       \<and> new = concat (map (\<lambda>d. [instruction s d ''attack'' 0 (33 / 100),
                                   instruction s d ''sustain'' (33 / 100) (33 / 100),
                                   instruction s d ''decay'' (66 / 100) (33 / 100)]) offsets)
       \<and> (\<forall>tr. \<exists>s' tr'. for_each (shift_body ev) offsets (s, tr) = Inr (s', tr')
                  \<and> augmentations tr' = augmentations tr @ new)
       \<and> (write_file ev (mid_filename s) = None \<longrightarrow>
            (\<exists>st'. key_body ev oct program k st = Inr st'
               \<and> augmentations (trace st') = augmentations (trace st) @ new))
       \<and> trim ` set new = {(0, 33 / 100), (33 / 100, 33 / 100), (66 / 100, 33 / 100)}
       \<and> (\<forall>a \<in> set new. snd (trim a) = 33 / 100 \<and> fst (trim a) \<in> {0, 33 / 100, 66 / 100})
       \<and> (\<Union>a \<in> set new. {fst (trim a) .. fst (trim a) + snd (trim a)}) = {0 .. 99 / 100}
       \<and> (\<forall>a \<in> set new. \<forall>b \<in> set new. trim a \<noteq> trim b \<longrightarrow>
             {fst (trim a) ..< fst (trim a) + snd (trim a)}
               \<inter> {fst (trim b) ..< fst (trim b) + snd (trim b)} = {}))"
proof (intro allI impI)
  fix ev :: env and oct :: int and program k and st :: state
  assume h: "k \<in> set Note_names \<and> 0 \<le> oct \<and> oct \<le> 9"
  then have k: "k \<in> set Note_names" and o: "0 \<le> oct" "oct \<le> 9" by (simp_all)
  define offsets where "offsets = fst (shift_offsets (entropy st))"
  from key_body_ok[OF k o, of program ev st]
  obtain s where i: "Sample_init (job_name k oct program) program k oct 100 60 = Inr s"
    and r: "write_file ev (mid_filename s) = None \<longrightarrow>
                (\<exists>st'. key_body ev oct program k st = Inr st'
                   \<and> augmentations (trace st') = augmentations (trace st) @ plan s offsets)"
    unfolding offsets_def by (auto)
  define new where "new = plan s offsets"
  have ne: "offsets \<noteq> []" unfolding offsets_def by (simp add: shift_offsets_eq)
  have w: "trim ` set new = {(0, 33 / 100), (33 / 100, 33 / 100), (66 / 100, 33 / 100)}"
    unfolding new_def by (rule trim_plan[OF ne])
  note f = windows_facts[OF w]
  have c1: "\<forall>a \<in> set new. snd (trim a) = 33 / 100 \<and> fst (trim a) \<in> {0, 33 / 100, 66 / 100}"
    using f(1) by (blast)
  have c2: "(\<Union>a \<in> set new. {fst (trim a) .. fst (trim a) + snd (trim a)}) = {0 .. 99 / 100}"
    using f(2) by (simp only: UN_simps image_image)
  have c3: "\<forall>a \<in> set new. \<forall>b \<in> set new. trim a \<noteq> trim b \<longrightarrow>
             {fst (trim a) ..< fst (trim a) + snd (trim a)}
               \<inter> {fst (trim b) ..< fst (trim b) + snd (trim b)} = {}"
    using f(3) by (blast)
  have n: "new = concat (map (\<lambda>d. [instruction s d ''attack'' 0 (33 / 100),
                                   instruction s d ''sustain'' (33 / 100) (33 / 100),
                                   instruction s d ''decay'' (66 / 100) (33 / 100)]) offsets)"
    unfolding new_def plan_def ..
  have lp: "\<forall>tr. \<exists>s' tr'. for_each (shift_body ev) offsets (s, tr) = Inr (s', tr')
                  \<and> augmentations tr' = augmentations tr @ new"
    using job_loop_ok[OF k o i, of ev "entropy st"] unfolding offsets_def new_def by (blast)
  have r': "write_file ev (mid_filename s) = None \<longrightarrow>
            (\<exists>st'. key_body ev oct program k st = Inr st'
               \<and> augmentations (trace st') = augmentations (trace st) @ new)"
    using r unfolding new_def .
  show "\<exists>s offsets new.
         Sample_init (job_name k oct program) program k oct 100 60 = Inr s
       \<and> offsets = fst (shift_offsets (entropy st))
       \<and> new = concat (map (\<lambda>d. [instruction s d ''attack'' 0 (33 / 100),
                                   instruction s d ''sustain'' (33 / 100) (33 / 100),
                                   instruction s d ''decay'' (66 / 100) (33 / 100)]) offsets)
       \<and> (\<forall>tr. \<exists>s' tr'. for_each (shift_body ev) offsets (s, tr) = Inr (s', tr')
                  \<and> augmentations tr' = augmentations tr @ new)
       \<and> (write_file ev (mid_filename s) = None \<longrightarrow>
            (\<exists>st'. key_body ev oct program k st = Inr st'
               \<and> augmentations (trace st') = augmentations (trace st) @ new))
       \<and> trim ` set new = {(0, 33 / 100), (33 / 100, 33 / 100), (66 / 100, 33 / 100)}
       \<and> (\<forall>a \<in> set new. snd (trim a) = 33 / 100 \<and> fst (trim a) \<in> {0, 33 / 100, 66 / 100})
       \<and> (\<Union>a \<in> set new. {fst (trim a) .. fst (trim a) + snd (trim a)}) = {0 .. 99 / 100}
       \<and> (\<forall>a \<in> set new. \<forall>b \<in> set new. trim a \<noteq> trim b \<longrightarrow>
             {fst (trim a) ..< fst (trim a) + snd (trim a)}
               \<inter> {fst (trim b) ..< fst (trim b) + snd (trim b)} = {})"
    apply (rule exI[of _ s], rule exI[of _ offsets], rule exI[of _ new])
    apply (intro conjI i offsets_def n lp r' w c1 c2 c3)
    done
qed

theorem segment_windows_witness:
  "''A'' \<in> set Note_names \<and> (0::int) \<le> 4 \<and> (4::int) \<le> 9
   \<and> write_file all_succeed (mid_filename sample_A4) = None
   \<and> (\<exists>s offsets new.
         Sample_init (job_name ''A'' 4 0) 0 ''A'' 4 100 60 = Inr s
       \<and> offsets = fst (shift_offsets (entropy initial_state))
       \<and> new = concat (map (\<lambda>d. [instruction s d ''attack'' 0 (33 / 100),
                                   instruction s d ''sustain'' (33 / 100) (33 / 100),
                                   instruction s d ''decay'' (66 / 100) (33 / 100)]) offsets)
       \<and> (\<forall>tr. \<exists>s' tr'. for_each (shift_body all_succeed) offsets (s, tr) = Inr (s', tr')
                  \<and> augmentations tr' = augmentations tr @ new)
       \<and> (write_file all_succeed (mid_filename s) = None \<longrightarrow>
            (\<exists>st'. key_body all_succeed 4 0 ''A'' initial_state = Inr st'
               \<and> augmentations (trace st') = augmentations (trace initial_state) @ new))
       \<and> trim ` set new = {(0, 33 / 100), (33 / 100, 33 / 100), (66 / 100, 33 / 100)}
       \<and> (\<forall>a \<in> set new. snd (trim a) = 33 / 100 \<and> fst (trim a) \<in> {0, 33 / 100, 66 / 100})
       \<and> (\<Union>a \<in> set new. {fst (trim a) .. fst (trim a) + snd (trim a)}) = {0 .. 99 / 100}
       \<and> (\<forall>a \<in> set new. \<forall>b \<in> set new. trim a \<noteq> trim b \<longrightarrow>
             {fst (trim a) ..< fst (trim a) + snd (trim a)}
               \<inter> {fst (trim b) ..< fst (trim b) + snd (trim b)} = {}))"
proof -
  have h: "''A'' \<in> set Note_names \<and> (0::int) \<le> 4 \<and> (4::int) \<le> 9"
    using A_in_names by (simp)
  have w: "write_file all_succeed (mid_filename sample_A4) = None"
    by (simp add: all_succeed_def)
  note a = segment_windows[rule_format, OF h, of 0 initial_state all_succeed]
  show ?thesis
    by (intro conjI a w A_in_names) simp_all
qed

section \<open>The whole pass\<close>

text \<open>
  The jobs of \<^verbatim>\<open>main\<close> are the bodies \<open>key_body\<close> for octave 4, the first 15 programs of the
  shuffled catalogue and the twelve keys of the table. When the shuffled catalogue keeps
  at least 15 entries and every MIDI file can be written, \<^verbatim>\<open>main\<close> returns after
  \<open>15 * 12 * 18 = 3240\<close> instructions to the transform tool, whatever the statuses of the
  external commands.
\<close>

lemma for_each_count:
  assumes step: "\<And>x st. x \<in> set xs \<Longrightarrow> P st \<Longrightarrow>
                   \<exists>st'. body x st = Inr st' \<and> P st' \<and> cnt st' = cnt st + (c::nat)"
      and P: "P st"
  shows "\<exists>st'. for_each body xs st = Inr st' \<and> P st' \<and> cnt st' = cnt st + c * length xs"
  using assms
proof (induction xs arbitrary: st)
  case Nil
  then show ?case by (simp)
next
  case (Cons x xs)
  from Cons.prems(1)[of x st] Cons.prems(2)
  obtain st1 where b: "body x st = Inr st1" and p1: "P st1" and c1: "cnt st1 = cnt st + c"
    by (auto)
  have "\<exists>st'. for_each body xs st1 = Inr st' \<and> P st' \<and> cnt st' = cnt st1 + c * length xs"
  proof (rule Cons.IH[OF _ p1])
    fix y st2 assume "y \<in> set xs" "P st2"
    then show "\<exists>st'. body y st2 = Inr st' \<and> P st' \<and> cnt st' = cnt st2 + c"
      using Cons.prems(1)[of y st2] by (simp)
  qed
  then obtain st2 where r: "for_each body xs st1 = Inr st2" and p2: "P st2"
    and c2: "cnt st2 = cnt st1 + c * length xs" by (blast)
  have "for_each body (x # xs) st = Inr st2" using b r by (simp)
  moreover have "cnt st2 = cnt st + c * length (x # xs)" using c1 c2 by (simp)
  ultimately show ?case using p2 by (blast)
qed

lemma key_body_patches:
  "key_body ev oct program k st = Inr st' \<Longrightarrow> patches st' = patches st"
  by (auto simp add: key_body_def case_prod_beta Let_def split: sum.splits)

lemma patch_body_ok:
  assumes "patch < length (patches st)" and w: "\<forall>p. write_file ev p = None"
  shows "\<exists>st'. patch_body ev 4 patch st = Inr st' \<and> patches st' = patches st
           \<and> length (augmentations (trace st')) = length (augmentations (trace st)) + 18 * 12"
proof -
  let ?P = "\<lambda>s::state. patches s = patches st"
  have "\<exists>st'. for_each (key_body ev 4 (patches st ! patch)) Note_names st = Inr st' \<and> ?P st'
          \<and> length (augmentations (trace st'))
               = length (augmentations (trace st)) + 18 * length Note_names"
  proof (rule for_each_count[where P = ?P and cnt = "\<lambda>s::state. length (augmentations (trace s))"])
    fix k and s :: state assume k: "k \<in> set Note_names" and p: "patches s = patches st"
    have a: "attempted (key_body ev 4 (patches st ! patch) k s)
               = Inr (length (augmentations (trace s)) + 18)"
      by (rule key_body_attempted[OF k]) (simp_all add: w)
    then obtain s' where r: "key_body ev 4 (patches st ! patch) k s = Inr s'"
      by (cases "key_body ev 4 (patches st ! patch) k s") (simp_all add: attempted_def)
    with a have "length (augmentations (trace s')) = length (augmentations (trace s)) + 18"
      by (simp add: attempted_def)
    with r key_body_patches[OF r] p
    show "\<exists>st'. key_body ev 4 (patches st ! patch) k s = Inr st' \<and> patches st' = patches st
            \<and> length (augmentations (trace st')) = length (augmentations (trace s)) + 18"
      by (simp)
  qed simp
  moreover have "length Note_names = 12" by (simp add: Note_names_def)
  ultimately show ?thesis
    using assms(1) by (simp add: patch_body_def)
qed

lemma main_runs:
  assumes "15 \<le> length (shuffle GM_PATCHES)" and w: "\<forall>p. write_file ev p = None"
  shows "\<exists>st. main ev shuffle g = Inr st \<and> length (augmentations (trace st)) = 3240"
proof -
  let ?st0 = "\<lparr>patches = shuffle GM_PATCHES, entropy = g, trace = []\<rparr>"
  let ?P = "\<lambda>s::state. patches s = shuffle GM_PATCHES"
  have "\<exists>st'. for_each (patch_body ev 4) [0..<15] ?st0 = Inr st' \<and> ?P st'
          \<and> length (augmentations (trace st'))
               = length (augmentations (trace ?st0)) + 18 * 12 * length [0..<15]"
  proof (rule for_each_count[where P = ?P and cnt = "\<lambda>s::state. length (augmentations (trace s))"])
    fix patch and s :: state assume "patch \<in> set [0..<15]" and p: "patches s = shuffle GM_PATCHES"
    then have "patch < length (patches s)" using assms(1) by (simp)
    from patch_body_ok[OF this w] p
    show "\<exists>st'. patch_body ev 4 patch s = Inr st' \<and> patches st' = shuffle GM_PATCHES
            \<and> length (augmentations (trace st')) = length (augmentations (trace s)) + 18 * 12"
      by (simp)
  qed simp
  then obtain st where r: "for_each (patch_body ev 4) [0..<15] ?st0 = Inr st"
    and l: "length (augmentations (trace st)) = 3240"
    by (auto simp add: augmentations_def)
  have u: "[4..4] = [4::int]" by (simp add: upto_rec1)
  have "main ev shuffle g = Inr st"
    unfolding main_def u using r by (simp add: octave_body_def)
  with l show ?thesis by (blast)
qed

lemma main_data_missing: "main data_missing id g = Inl FileNotFoundError"
proof -
  have C: "''C'' \<in> set Note_names" by (simp add: Note_names_def)
  have k: "key_body data_missing 4 0 ''C'' st = Inl FileNotFoundError" for st
    by (rule key_body_raises[OF C]) (simp_all add: data_missing_def)
  have u: "[4..4] = [4::int]" by (simp add: upto_rec1)
  have n: "Note_names = ''C'' # tl Note_names" by (simp add: Note_names_def)
  have p: "patch_body data_missing 4 0 \<lparr>patches = GM_PATCHES, entropy = g, trace = []\<rparr>
             = Inl FileNotFoundError"
    unfolding patch_body_def
    apply (subst n)
    apply (simp add: GM_PATCHES_def k)
    done
  have "[0..<15] = 0 # [1..<15]" by (simp add: upt_rec)
  then show ?thesis
    unfolding main_def u using p by (simp add: octave_body_def)
qed

end
